theory Spec2Isabelle
  imports Complex_Main "HOL-Library.Sublist"
begin

section \<open>Numbers\<close>

text \<open>
  Every value of the language is a C++ \<^verbatim>\<open>double\<close>. The interpreter uses the
  platform's arithmetic (\<^verbatim>\<open>+ - * /\<close>, \<^verbatim>\<open>floor\<close>, \<^verbatim>\<open>pow\<close>, the
  comparisons) as primitives; the model takes them as a parameter, so that every
  theorem holds for whatever the platform computes (rounding, infinities, NaN).
  \<^verbatim>\<open>a != b\<close> is the negation of \<^verbatim>\<open>a == b\<close>, \<^verbatim>\<open>a > b\<close> is \<^verbatim>\<open>b < a\<close>
  and \<^verbatim>\<open>a >= b\<close> is \<^verbatim>\<open>b <= a\<close>.
\<close>

record 'd double_ops =
  d_zero :: 'd
  d_one :: 'd
  d_add :: "'d \<Rightarrow> 'd \<Rightarrow> 'd"
  d_sub :: "'d \<Rightarrow> 'd \<Rightarrow> 'd"
  d_mul :: "'d \<Rightarrow> 'd \<Rightarrow> 'd"
  d_div :: "'d \<Rightarrow> 'd \<Rightarrow> 'd"
  d_neg :: "'d \<Rightarrow> 'd"
  d_floor :: "'d \<Rightarrow> 'd"
  d_pow :: "'d \<Rightarrow> 'd \<Rightarrow> 'd"
  d_eq :: "'d \<Rightarrow> 'd \<Rightarrow> bool"
  d_lt :: "'d \<Rightarrow> 'd \<Rightarrow> bool"
  d_le :: "'d \<Rightarrow> 'd \<Rightarrow> bool"

text \<open>The conversion of a C++ \<^verbatim>\<open>bool\<close> to \<^verbatim>\<open>double\<close>.\<close>

definition d_of_bool :: "'d double_ops \<Rightarrow> bool \<Rightarrow> 'd" where
  "d_of_bool ops b = (if b then d_one ops else d_zero ops)"

text \<open>\<^verbatim>\<open>std::max(a, b)\<close> is \<^verbatim>\<open>(a < b) ? b : a\<close>.\<close>

definition std_max :: "'d double_ops \<Rightarrow> 'd \<Rightarrow> 'd \<Rightarrow> 'd" where
  "std_max ops a b = (if d_lt ops a b then b else a)"

text \<open>
  Exact real arithmetic, standing in for the doubles on the small inputs of the
  examples, where both agree.
\<close>

definition real_ops :: "real double_ops" where
  "real_ops = \<lparr> d_zero = 0, d_one = 1, d_add = (+), d_sub = (-), d_mul = (*),
     d_div = (/), d_neg = uminus, d_floor = (\<lambda>x. of_int \<lfloor>x\<rfloor>),
     d_pow = (\<lambda>x y. if 0 \<le> y \<and> y = of_int \<lfloor>y\<rfloor> then x ^ nat \<lfloor>y\<rfloor> else x powr y),
     d_eq = (=), d_lt = (<), d_le = (\<le>) \<rparr>"

section \<open>Abstract syntax (absyn.h)\<close>

datatype IncDecOpType = OP_INCR | OP_DECR

datatype ArithOpType = OP_PLUS | OP_MINUS | OP_MUL | OP_DIV | OP_MOD | OP_POW

datatype BoolOpType = OP_LT | OP_LE | OP_GT | OP_GE | OP_EQ | OP_NE | OP_AND | OP_OR

datatype 'd AbsExpression =
    ConstantExpression 'd
  | VariableExpression string
  | PrefixOpExpression string IncDecOpType
  | PostfixOpExpression string IncDecOpType
  | ArithmeticExpression "'d AbsExpression" "'d AbsExpression" ArithOpType
  | BooleanExpression "'d AbsExpression" "'d AbsExpression" BoolOpType
  | NegationExpression "'d AbsExpression"
  | AssignExpression string "'d AbsExpression"
  | FunctionCallExpression string "'d AbsExpression list"
  | MinusExpression "'d AbsExpression"

text \<open>An \<^verbatim>\<open>IfStatement\<close> without else clause has \<^verbatim>\<open>m_falseStmt = 0\<close>, a
  \<^verbatim>\<open>ReturnStatement\<close> without expression has \<^verbatim>\<open>m_expr = NULL\<close>.\<close>

datatype 'd AbsStatement =
    ExpressionStatement "'d AbsExpression"
  | IfStatement "'d AbsExpression" "'d AbsStatement" "'d AbsStatement option"
  | WhileStatement "'d AbsExpression" "'d AbsStatement"
  | BreakStatement
  | ContinueStatement
  | HaltStatement
  | ReturnStatement "'d AbsExpression option"
  | StatementList "'d AbsStatement list"

record 'd FunctionDefinition =
  m_name :: string
  m_args :: "string list"
  m_autos :: "string list"
  m_commands :: "'d AbsStatement list"

fun shouldDisplayResult :: "'d AbsExpression \<Rightarrow> bool" where
  "shouldDisplayResult (AssignExpression name e) = False"
| "shouldDisplayResult e = True"

section \<open>Exceptions and results\<close>

text \<open>
  The exception classes of absyn.h, and two outcomes that are no C++ exception:
  \<open>UndefinedBehaviour\<close> (\<^verbatim>\<open>top()\<close> or \<^verbatim>\<open>pop()\<close> on an empty \<^verbatim>\<open>std::stack\<close>, a
  failed \<^verbatim>\<open>assert\<close>) and \<open>OutOfFuel\<close> (the evaluation did not finish within the
  fuel it was given: the model's account of a run that may go on forever).
\<close>

datatype 'd exception =
    RuntimeException string
  | ContinueFlowException
  | BreakFlowException
  | HaltFlowException
  | ReturnFlowException 'd
  | UndefinedBehaviour
  | OutOfFuel

type_synonym 'd result = "'d exception + 'd"

section \<open>RuntimeContext (absyn.cpp)\<close>

text \<open>
  A \<^verbatim>\<open>std::stack\<close> is a list whose head is the top. The two streams the interpreter
  writes are part of the state: \<open>cout\<close> holds the values printed (each is followed
  by a newline), \<open>cerr\<close> the messages.
\<close>

record 'd RuntimeContext =
  m_functionTable :: "string \<rightharpoonup> 'd FunctionDefinition"
  m_variables :: "string \<rightharpoonup> 'd list"
  m_callStack :: "'d FunctionDefinition list"
  cout :: "'d list"
  cerr :: "string list"

definition getVariable :: "'d double_ops \<Rightarrow> 'd RuntimeContext \<Rightarrow> string \<Rightarrow> 'd result" where
  "getVariable ops s name =
     (case m_variables s name of
        Some st \<Rightarrow> (case st of [] \<Rightarrow> Inl UndefinedBehaviour | v # _ \<Rightarrow> Inr v)
      | None \<Rightarrow> Inr (d_zero ops))"

definition setVariable :: "'d RuntimeContext \<Rightarrow> string \<Rightarrow> 'd \<Rightarrow> 'd RuntimeContext" where
  "setVariable s name val =
     (case m_variables s name of
        None \<Rightarrow> s\<lparr>m_variables := (m_variables s)(name \<mapsto> [val])\<rparr>
      | Some [] \<Rightarrow> s\<lparr>m_variables := (m_variables s)(name \<mapsto> [val])\<rparr>
      | Some (v # vs) \<Rightarrow> s\<lparr>m_variables := (m_variables s)(name \<mapsto> val # vs)\<rparr>)"

definition addFunctionDefinition :: "'d RuntimeContext \<Rightarrow> 'd FunctionDefinition \<Rightarrow> 'd RuntimeContext" where
  "addFunctionDefinition s definition =
     s\<lparr>m_functionTable := (m_functionTable s)(m_name definition \<mapsto> definition)\<rparr>"

definition getFunctionDefinition :: "'d RuntimeContext \<Rightarrow> string \<Rightarrow> 'd FunctionDefinition option" where
  "getFunctionDefinition s name = m_functionTable s name"

definition addVariable :: "'d RuntimeContext \<Rightarrow> string \<Rightarrow> 'd \<Rightarrow> 'd RuntimeContext" where
  "addVariable s name val =
     (case m_variables s name of
        None \<Rightarrow> s\<lparr>m_variables := (m_variables s)(name \<mapsto> [val])\<rparr>
      | Some st \<Rightarrow> s\<lparr>m_variables := (m_variables s)(name \<mapsto> val # st)\<rparr>)"

text \<open>\<^verbatim>\<open>m_variables[name].pop()\<close>: popping an empty stack is undefined (\<open>None\<close>).\<close>

definition delVariable :: "'d RuntimeContext \<Rightarrow> string \<Rightarrow> 'd RuntimeContext option" where
  "delVariable s name =
     (case m_variables s name of
        None \<Rightarrow> None
      | Some [] \<Rightarrow> None
      | Some (v # vs) \<Rightarrow> Some (s\<lparr>m_variables := (m_variables s)(name \<mapsto> vs)\<rparr>))"

text \<open>The loop of enterFunction over the parameter names and the values, in step.\<close>

fun addParameters :: "'d RuntimeContext \<Rightarrow> string list \<Rightarrow> 'd list \<Rightarrow> 'd RuntimeContext" where
  "addParameters s (p # ps) (v # vs) = addParameters (addVariable s p v) ps vs"
| "addParameters s ps vs = s"

fun addAutos :: "'d double_ops \<Rightarrow> 'd RuntimeContext \<Rightarrow> string list \<Rightarrow> 'd RuntimeContext" where
  "addAutos ops s [] = s"
| "addAutos ops s (a # as) = addAutos ops (addVariable s a (d_zero ops)) as"

definition enterFunction ::
  "'d double_ops \<Rightarrow> 'd RuntimeContext \<Rightarrow> 'd FunctionDefinition \<Rightarrow> 'd list \<Rightarrow> 'd RuntimeContext" where
  "enterFunction ops s function argValues =
     (let s1 = addParameters s (m_args function) argValues;
          s2 = addAutos ops s1 (m_autos function)
      in s2\<lparr>m_callStack := function # m_callStack s2\<rparr>)"

fun delVariables :: "'d RuntimeContext \<Rightarrow> string list \<Rightarrow> 'd RuntimeContext option" where
  "delVariables s [] = Some s"
| "delVariables s (x # xs) =
     (case delVariable s x of None \<Rightarrow> None | Some s1 \<Rightarrow> delVariables s1 xs)"

definition exitFunction :: "'d RuntimeContext \<Rightarrow> 'd RuntimeContext option" where
  "exitFunction s =
     (case m_callStack s of
        [] \<Rightarrow> None
      | function # rest \<Rightarrow>
          (case delVariables (s\<lparr>m_callStack := rest\<rparr>) (m_autos function) of
             None \<Rightarrow> None
           | Some s1 \<Rightarrow> delVariables s1 (m_args function)))"

definition throwError :: "'d RuntimeContext \<Rightarrow> string \<Rightarrow> 'd exception" where
  "throwError s errmessage =
     RuntimeException (''runtime error in function ''
        @ (case m_callStack s of [] \<Rightarrow> ''(main)'' | f # _ \<Rightarrow> m_name f)
        @ '': '' @ errmessage @ ''.'')"

section \<open>The evaluator (absyn.cpp, the interpret methods)\<close>

definition incdec :: "'d double_ops \<Rightarrow> IncDecOpType \<Rightarrow> 'd \<Rightarrow> 'd" where
  "incdec ops t v = (case t of OP_INCR \<Rightarrow> d_add ops v (d_one ops) | OP_DECR \<Rightarrow> d_sub ops v (d_one ops))"

text \<open>The switch of ArithmeticExpression::interpret, on the two operand values.\<close>

definition arith :: "'d double_ops \<Rightarrow> 'd RuntimeContext \<Rightarrow> ArithOpType \<Rightarrow> 'd \<Rightarrow> 'd \<Rightarrow> 'd result" where
  "arith ops s t lhs rhs =
     (case t of
        OP_PLUS \<Rightarrow> Inr (d_add ops lhs rhs)
      | OP_MINUS \<Rightarrow> Inr (d_sub ops lhs rhs)
      | OP_MUL \<Rightarrow> Inr (d_mul ops lhs rhs)
      | OP_DIV \<Rightarrow>
          if d_eq ops rhs (d_zero ops) then Inl (throwError s ''division by zero'')
          else Inr (d_div ops lhs rhs)
      | OP_MOD \<Rightarrow>
          if d_eq ops rhs (d_zero ops) then Inl (throwError s ''modulo zero'')
          else Inr (d_sub ops lhs (d_mul ops (d_floor ops (d_div ops lhs rhs)) rhs))
      | OP_POW \<Rightarrow> Inr (d_pow ops lhs (std_max ops (d_zero ops) (d_floor ops rhs))))"

text \<open>The switch of BooleanExpression::interpret.\<close>

definition boolean :: "'d double_ops \<Rightarrow> BoolOpType \<Rightarrow> 'd \<Rightarrow> 'd \<Rightarrow> 'd" where
  "boolean ops t lhs rhs =
     d_of_bool ops (case t of
        OP_LT \<Rightarrow> d_lt ops lhs rhs
      | OP_LE \<Rightarrow> d_le ops lhs rhs
      | OP_GT \<Rightarrow> d_lt ops rhs lhs
      | OP_GE \<Rightarrow> d_le ops rhs lhs
      | OP_EQ \<Rightarrow> d_eq ops lhs rhs
      | OP_NE \<Rightarrow> \<not> d_eq ops lhs rhs
      | OP_AND \<Rightarrow> (\<not> d_eq ops lhs (d_zero ops)) \<and> (\<not> d_eq ops rhs (d_zero ops))
      | OP_OR \<Rightarrow> (\<not> d_eq ops lhs (d_zero ops)) \<or> (\<not> d_eq ops rhs (d_zero ops)))"

text \<open>
  The loop of FunctionCallExpression::interpret over the argument list: the values
  are collected left to right, an exception ends the loop.
\<close>

fun interpret_arguments ::
  "('d AbsExpression \<Rightarrow> 'd RuntimeContext \<Rightarrow> 'd result \<times> 'd RuntimeContext) \<Rightarrow>
   'd AbsExpression list \<Rightarrow> 'd RuntimeContext \<Rightarrow> ('d exception + 'd list) \<times> 'd RuntimeContext" where
  "interpret_arguments interp [] s = (Inr [], s)"
| "interpret_arguments interp (e # es) s =
     (case interp e s of
        (Inl x, s1) \<Rightarrow> (Inl x, s1)
      | (Inr v, s1) \<Rightarrow>
          (case interpret_arguments interp es s1 of
             (Inl x, s2) \<Rightarrow> (Inl x, s2)
           | (Inr vs, s2) \<Rightarrow> (Inr (v # vs), s2)))"

text \<open>The loop of StatementList::interpret.\<close>

fun interpret_statements ::
  "'d double_ops \<Rightarrow> ('d AbsStatement \<Rightarrow> 'd RuntimeContext \<Rightarrow> 'd result \<times> 'd RuntimeContext) \<Rightarrow>
   'd AbsStatement list \<Rightarrow> 'd RuntimeContext \<Rightarrow> 'd result \<times> 'd RuntimeContext" where
  "interpret_statements ops interp [] s = (Inr (d_zero ops), s)"
| "interpret_statements ops interp (st # sts) s =
     (case interp st s of
        (Inl x, s1) \<Rightarrow> (Inl x, s1)
      | (Inr v, s1) \<Rightarrow> interpret_statements ops interp sts s1)"

text \<open>
  The loop of WhileStatement::interpret, entered with the value of the condition.
  Each iteration uses one unit of fuel.
\<close>

fun while_loop ::
  "'d double_ops \<Rightarrow> nat \<Rightarrow> ('d RuntimeContext \<Rightarrow> 'd result \<times> 'd RuntimeContext) \<Rightarrow>
   ('d RuntimeContext \<Rightarrow> 'd result \<times> 'd RuntimeContext) \<Rightarrow> 'd \<Rightarrow> 'd RuntimeContext \<Rightarrow>
   'd result \<times> 'd RuntimeContext" where
  "while_loop ops 0 cond body condition s =
     (if \<not> d_eq ops condition (d_zero ops) then (Inl OutOfFuel, s) else (Inr (d_zero ops), s))"
| "while_loop ops (Suc n) cond body condition s =
     (if \<not> d_eq ops condition (d_zero ops) then
        (case body s of
           (Inl ContinueFlowException, s1) \<Rightarrow>
             (case cond s1 of
                (Inl x, s2) \<Rightarrow> (Inl x, s2)
              | (Inr condition', s2) \<Rightarrow> while_loop ops n cond body condition' s2)
         | (Inl BreakFlowException, s1) \<Rightarrow> (Inr (d_zero ops), s1)
         | (Inl x, s1) \<Rightarrow> (Inl x, s1)
         | (Inr v, s1) \<Rightarrow>
             (case cond s1 of
                (Inl x, s2) \<Rightarrow> (Inl x, s2)
              | (Inr condition', s2) \<Rightarrow> while_loop ops n cond body condition' s2))
      else (Inr (d_zero ops), s))"

text \<open>
  The try block of FunctionCallExpression::interpret: a ReturnFlowException gives the
  value of the call, any other exception is rethrown, and exitFunction runs either way.
\<close>

definition leave_call ::
  "'d double_ops \<Rightarrow> 'd result \<times> 'd RuntimeContext \<Rightarrow> 'd result \<times> 'd RuntimeContext" where
  "leave_call ops r =
     (case r of
        (Inl (ReturnFlowException v), s2) \<Rightarrow>
          (case exitFunction s2 of None \<Rightarrow> (Inl UndefinedBehaviour, s2) | Some s3 \<Rightarrow> (Inr v, s3))
      | (Inl x, s2) \<Rightarrow>
          (case exitFunction s2 of None \<Rightarrow> (Inl UndefinedBehaviour, s2) | Some s3 \<Rightarrow> (Inl x, s3))
      | (Inr v, s2) \<Rightarrow>
          (case exitFunction s2 of None \<Rightarrow> (Inl UndefinedBehaviour, s2)
           | Some s3 \<Rightarrow> (Inr (d_zero ops), s3)))"

fun interpret_expr ::
  "'d double_ops \<Rightarrow> nat \<Rightarrow> 'd AbsExpression \<Rightarrow> 'd RuntimeContext \<Rightarrow> 'd result \<times> 'd RuntimeContext"
and interpret_stmt ::
  "'d double_ops \<Rightarrow> nat \<Rightarrow> 'd AbsStatement \<Rightarrow> 'd RuntimeContext \<Rightarrow> 'd result \<times> 'd RuntimeContext"
where
  "interpret_expr ops 0 e s = (Inl OutOfFuel, s)"
| "interpret_expr ops (Suc n) (ConstantExpression c) s = (Inr c, s)"
| "interpret_expr ops (Suc n) (VariableExpression name) s = (getVariable ops s name, s)"
| "interpret_expr ops (Suc n) (PrefixOpExpression name t) s =
     (case getVariable ops s name of
        Inl x \<Rightarrow> (Inl x, s)
      | Inr v \<Rightarrow> (Inr (incdec ops t v), setVariable s name (incdec ops t v)))"
| "interpret_expr ops (Suc n) (PostfixOpExpression name t) s =
     (case getVariable ops s name of
        Inl x \<Rightarrow> (Inl x, s)
      | Inr oldvalue \<Rightarrow> (Inr oldvalue, setVariable s name (incdec ops t oldvalue)))"
| "interpret_expr ops (Suc n) (ArithmeticExpression l r t) s =
     (case interpret_expr ops n l s of
        (Inl x, s1) \<Rightarrow> (Inl x, s1)
      | (Inr lhs, s1) \<Rightarrow>
          (case interpret_expr ops n r s1 of
             (Inl x, s2) \<Rightarrow> (Inl x, s2)
           | (Inr rhs, s2) \<Rightarrow> (arith ops s2 t lhs rhs, s2)))"
| "interpret_expr ops (Suc n) (BooleanExpression l r t) s =
     (case interpret_expr ops n l s of
        (Inl x, s1) \<Rightarrow> (Inl x, s1)
      | (Inr lhs, s1) \<Rightarrow>
          (case interpret_expr ops n r s1 of
             (Inl x, s2) \<Rightarrow> (Inl x, s2)
           | (Inr rhs, s2) \<Rightarrow> (Inr (boolean ops t lhs rhs), s2)))"
| "interpret_expr ops (Suc n) (NegationExpression e) s =
     (case interpret_expr ops n e s of
        (Inl x, s1) \<Rightarrow> (Inl x, s1)
      | (Inr v, s1) \<Rightarrow> (Inr (d_of_bool ops (\<not> (\<not> d_eq ops v (d_zero ops)))), s1))"
| "interpret_expr ops (Suc n) (AssignExpression name e) s =
     (case interpret_expr ops n e s of
        (Inl x, s1) \<Rightarrow> (Inl x, s1)
      | (Inr v, s1) \<Rightarrow> (Inr v, setVariable s1 name v))"
| "interpret_expr ops (Suc n) (FunctionCallExpression name argList) s =
     (case getFunctionDefinition s name of
        None \<Rightarrow> (Inl (throwError s (''function '' @ [CHR 0x27] @ name @ [CHR 0x27] @ '' not defined'')), s)
      | Some functionDef \<Rightarrow>
          if length (m_args functionDef) \<noteq> length argList then
            (Inl (throwError s (''wrong number of arguments for function '' @ [CHR 0x27] @ name @ [CHR 0x27])), s)
          else
            (case interpret_arguments (interpret_expr ops n) argList s of
               (Inl x, s1) \<Rightarrow> (Inl x, s1)
             | (Inr argumentValues, s1) \<Rightarrow>
                 leave_call ops
                   (interpret_statements ops (interpret_stmt ops n) (m_commands functionDef)
                      (enterFunction ops s1 functionDef argumentValues))))"
| "interpret_expr ops (Suc n) (MinusExpression e) s =
     (case interpret_expr ops n e s of
        (Inl x, s1) \<Rightarrow> (Inl x, s1)
      | (Inr v, s1) \<Rightarrow> (Inr (d_neg ops v), s1))"
| "interpret_stmt ops 0 st s = (Inl OutOfFuel, s)"
| "interpret_stmt ops (Suc n) (ExpressionStatement e) s =
     (case interpret_expr ops n e s of
        (Inl x, s1) \<Rightarrow> (Inl x, s1)
      | (Inr result, s1) \<Rightarrow>
          (Inr (d_zero ops), if shouldDisplayResult e then s1\<lparr>cout := cout s1 @ [result]\<rparr> else s1))"
| "interpret_stmt ops (Suc n) (IfStatement c t f) s =
     (case interpret_expr ops n c s of
        (Inl x, s1) \<Rightarrow> (Inl x, s1)
      | (Inr condition, s1) \<Rightarrow>
          if \<not> d_eq ops condition (d_zero ops) then
            (case interpret_stmt ops n t s1 of
               (Inl x, s2) \<Rightarrow> (Inl x, s2)
             | (Inr v, s2) \<Rightarrow> (Inr (d_zero ops), s2))
          else
            (case f of
               None \<Rightarrow> (Inr (d_zero ops), s1)
             | Some falseStmt \<Rightarrow>
                 (case interpret_stmt ops n falseStmt s1 of
                    (Inl x, s2) \<Rightarrow> (Inl x, s2)
                  | (Inr v, s2) \<Rightarrow> (Inr (d_zero ops), s2))))"
| "interpret_stmt ops (Suc n) (WhileStatement c b) s =
     (case interpret_expr ops n c s of
        (Inl x, s1) \<Rightarrow> (Inl x, s1)
      | (Inr condition, s1) \<Rightarrow>
          while_loop ops n (interpret_expr ops n c) (interpret_stmt ops n b) condition s1)"
| "interpret_stmt ops (Suc n) BreakStatement s = (Inl BreakFlowException, s)"
| "interpret_stmt ops (Suc n) ContinueStatement s = (Inl ContinueFlowException, s)"
| "interpret_stmt ops (Suc n) HaltStatement s = (Inl HaltFlowException, s)"
| "interpret_stmt ops (Suc n) (ReturnStatement None) s = (Inl (ReturnFlowException (d_zero ops)), s)"
| "interpret_stmt ops (Suc n) (ReturnStatement (Some e)) s =
     (case interpret_expr ops n e s of
        (Inl x, s1) \<Rightarrow> (Inl x, s1)
      | (Inr v, s1) \<Rightarrow> (Inl (ReturnFlowException v), s1))"
| "interpret_stmt ops (Suc n) (StatementList sts) s =
     interpret_statements ops (interpret_stmt ops n) sts s"

section \<open>The semantic checker (bc.y, class SemanticContext)\<close>

text \<open>printError only writes the diagnostic to the error stream; the model keeps the
  flag \<open>m_error\<close> it comes with.\<close>

record SemanticContext =
  m_inFunction :: bool
  m_funcArgs :: "string list option"
  m_while :: int
  m_error :: bool

definition reset :: SemanticContext where
  "reset = \<lparr> m_inFunction = False, m_funcArgs = None, m_while = 0, m_error = False \<rparr>"

definition sem_enterFunction :: "SemanticContext \<Rightarrow> SemanticContext" where
  "sem_enterFunction c = c\<lparr>m_inFunction := True\<rparr>"

definition setFunctionArguments :: "SemanticContext \<Rightarrow> string list \<Rightarrow> SemanticContext" where
  "setFunctionArguments c funcArgs = c\<lparr>m_funcArgs := Some funcArgs\<rparr>"

definition sem_exitFunction :: "SemanticContext \<Rightarrow> SemanticContext" where
  "sem_exitFunction c = c\<lparr>m_inFunction := False, m_funcArgs := None\<rparr>"

definition enterWhile :: "SemanticContext \<Rightarrow> SemanticContext" where
  "enterWhile c = c\<lparr>m_while := m_while c + 1\<rparr>"

definition exitWhile :: "SemanticContext \<Rightarrow> SemanticContext" where
  "exitWhile c = c\<lparr>m_while := m_while c - 1\<rparr>"

definition isInWhile :: "SemanticContext \<Rightarrow> bool" where
  "isInWhile c = (m_while c > 0)"

definition isInFunction :: "SemanticContext \<Rightarrow> bool" where
  "isInFunction c = m_inFunction c"

definition detectedError :: "SemanticContext \<Rightarrow> bool" where
  "detectedError c = m_error c"

definition checkBreak :: "SemanticContext \<Rightarrow> SemanticContext" where
  "checkBreak c = (if \<not> isInWhile c then c\<lparr>m_error := True\<rparr> else c)"

definition checkContinue :: "SemanticContext \<Rightarrow> SemanticContext" where
  "checkContinue c = (if \<not> isInWhile c then c\<lparr>m_error := True\<rparr> else c)"

definition checkReturn :: "SemanticContext \<Rightarrow> SemanticContext" where
  "checkReturn c = (if \<not> isInFunction c then c\<lparr>m_error := True\<rparr> else c)"

fun isStringInList :: "string list \<Rightarrow> string \<Rightarrow> bool" where
  "isStringInList [] str = False"
| "isStringInList (x # xs) str = (if x = str then True else isStringInList xs str)"

definition checkFunctionVariable :: "SemanticContext \<Rightarrow> string list \<Rightarrow> string \<Rightarrow> SemanticContext" where
  "checkFunctionVariable c currVariableList nextVar =
     (if isStringInList currVariableList nextVar then c\<lparr>m_error := True\<rparr>
      else (case m_funcArgs c of
              Some funcArgs \<Rightarrow> if isStringInList funcArgs nextVar then c\<lparr>m_error := True\<rparr> else c
            | None \<Rightarrow> c))"

text \<open>
  The semantic actions of the grammar, in the order in which the parser runs them while
  it reduces the productions that build a statement: \<^verbatim>\<open>WHILE\<close> enters a loop before
  its body is parsed and leaves it after; \<^verbatim>\<open>BREAK\<close>, \<^verbatim>\<open>CONTINUE\<close> and \<^verbatim>\<open>RETURN\<close>
  are checked where they stand. Expressions have no semantic action.
\<close>

fun statement_checks :: "'d AbsStatement \<Rightarrow> SemanticContext \<Rightarrow> SemanticContext"
and statements_checks :: "'d AbsStatement list \<Rightarrow> SemanticContext \<Rightarrow> SemanticContext" where
  "statement_checks (ExpressionStatement e) c = c"
| "statement_checks (IfStatement e t None) c = statement_checks t c"
| "statement_checks (IfStatement e t (Some f)) c = statement_checks f (statement_checks t c)"
| "statement_checks (WhileStatement e b) c = exitWhile (statement_checks b (enterWhile c))"
| "statement_checks BreakStatement c = checkBreak c"
| "statement_checks ContinueStatement c = checkContinue c"
| "statement_checks HaltStatement c = c"
| "statement_checks (ReturnStatement e) c = checkReturn c"
| "statement_checks (StatementList sts) c = statements_checks sts c"
| "statements_checks [] c = c"
| "statements_checks (st # sts) c = statements_checks sts (statement_checks st c)"

text \<open>The production \<^verbatim>\<open>variablelist\<close>: each name is checked against the names before it.\<close>

fun variablelist_checks :: "string list \<Rightarrow> string list \<Rightarrow> SemanticContext \<Rightarrow> SemanticContext" where
  "variablelist_checks currVariableList [] c = c"
| "variablelist_checks currVariableList (x # xs) c =
     variablelist_checks (currVariableList @ [x]) xs (checkFunctionVariable c currVariableList x)"

text \<open>The production \<^verbatim>\<open>funcdef\<close>.\<close>

definition funcdef_checks :: "'d FunctionDefinition \<Rightarrow> SemanticContext \<Rightarrow> SemanticContext" where
  "funcdef_checks fd c =
     (let c1 = sem_enterFunction c;
          c2 = variablelist_checks [] (m_args fd) c1;
          c3 = setFunctionArguments c2 (m_args fd);
          c4 = variablelist_checks [] (m_autos fd) c3;
          c5 = statements_checks (m_commands fd) c4
      in sem_exitFunction c5)"

section \<open>Commands (bc.y, the productions prog and command)\<close>

text \<open>
  A command that parses is a function definition or a statement line. The semantic
  context is reset after every command, so each command is checked from \<open>reset\<close>.
  The action of \<^verbatim>\<open>statementline NEWLINE\<close> catches RuntimeException (the message goes
  to the error stream and parsing goes on) and HaltFlowException (\<^verbatim>\<open>YYACCEPT\<close>); any
  other exception leaves yyparse uncaught. \<open>Uncaught\<close> also carries the two outcomes
  that are no exception, an undefined read and a run that did not finish.
\<close>

datatype 'd Command =
    FuncDefCommand "'d FunctionDefinition"
  | StatementLineCommand "'d AbsStatement list"

datatype 'd ParseStatus = Parsing | Accepted | Uncaught "'d exception"

definition command ::
  "'d double_ops \<Rightarrow> nat \<Rightarrow> 'd Command \<Rightarrow> 'd RuntimeContext \<Rightarrow> 'd ParseStatus \<times> 'd RuntimeContext" where
  "command ops n cmd s =
     (case cmd of
        FuncDefCommand fd \<Rightarrow>
          if \<not> detectedError (funcdef_checks fd reset) then (Parsing, addFunctionDefinition s fd)
          else (Parsing, s)
      | StatementLineCommand sts \<Rightarrow>
          if \<not> detectedError (statements_checks sts reset) then
            (case interpret_stmt ops n (StatementList sts) s of
               (Inl (RuntimeException msg), s1) \<Rightarrow> (Parsing, s1\<lparr>cerr := cerr s1 @ [msg]\<rparr>)
             | (Inl HaltFlowException, s1) \<Rightarrow> (Accepted, s1)
             | (Inl x, s1) \<Rightarrow> (Uncaught x, s1)
             | (Inr v, s1) \<Rightarrow> (Parsing, s1))
          else (Parsing, s))"

fun prog ::
  "'d double_ops \<Rightarrow> nat \<Rightarrow> 'd Command list \<Rightarrow> 'd RuntimeContext \<Rightarrow> 'd ParseStatus \<times> 'd RuntimeContext" where
  "prog ops n [] s = (Parsing, s)"
| "prog ops n (cmd # cmds) s =
     (case command ops n cmd s of
        (Parsing, s1) \<Rightarrow> prog ops n cmds s1
      | (status, s1) \<Rightarrow> (status, s1))"

text \<open>The runtime context of a fresh interpreter.\<close>

definition initial :: "'d RuntimeContext" where
  "initial = \<lparr> m_functionTable = Map.empty, m_variables = Map.empty, m_callStack = [],
     cout = [], cerr = [] \<rparr>"

section \<open>The partial-allocation tracker (absyn.cpp, class MemoryStack) and the expression productions\<close>

text \<open>A pointer is modelled by the object it points to.\<close>

datatype PointerType = AbsynPointer | CharListPointer | AbsExprListPointer

datatype 'd Absyn =
    AbsynExpression "'d AbsExpression"
  | AbsynStatement "'d AbsStatement"
  | AbsynFunctionDefinition "'d FunctionDefinition"

record 'd MemoryStack =
  m_pointerTypes :: "PointerType list"
  m_absynPointers :: "'d Absyn list"
  m_charListPointers :: "string list list"
  m_absExprListPointers :: "'d AbsExpression list list"
  m_charPointers :: "string list"

definition emptyMemoryStack :: "'d MemoryStack" where
  "emptyMemoryStack = \<lparr> m_pointerTypes = [], m_absynPointers = [], m_charListPointers = [],
     m_absExprListPointers = [], m_charPointers = [] \<rparr>"

definition push :: "'d MemoryStack \<Rightarrow> 'd Absyn \<Rightarrow> 'd MemoryStack" where
  "push ms absynPointer =
     ms\<lparr>m_absynPointers := absynPointer # m_absynPointers ms,
        m_pointerTypes := AbsynPointer # m_pointerTypes ms\<rparr>"

definition pushExprList :: "'d MemoryStack \<Rightarrow> 'd AbsExpression list \<Rightarrow> 'd MemoryStack" where
  "pushExprList ms absExprPointerPointer =
     ms\<lparr>m_absExprListPointers := absExprPointerPointer # m_absExprListPointers ms,
        m_pointerTypes := AbsExprListPointer # m_pointerTypes ms\<rparr>"

text \<open>\<^verbatim>\<open>pop()\<close>: \<^verbatim>\<open>top()\<close> and \<^verbatim>\<open>pop()\<close> on an empty stack are undefined (\<open>None\<close>).\<close>

definition pop :: "'d MemoryStack \<Rightarrow> 'd MemoryStack option" where
  "pop ms =
     (case m_pointerTypes ms of
        [] \<Rightarrow> None
      | AbsynPointer # types \<Rightarrow>
          (case m_absynPointers ms of [] \<Rightarrow> None
           | p # ps \<Rightarrow> Some (ms\<lparr>m_absynPointers := ps, m_pointerTypes := types\<rparr>))
      | CharListPointer # types \<Rightarrow>
          (case m_charListPointers ms of [] \<Rightarrow> None
           | p # ps \<Rightarrow> Some (ms\<lparr>m_charListPointers := ps, m_pointerTypes := types\<rparr>))
      | AbsExprListPointer # types \<Rightarrow>
          (case m_absExprListPointers ms of [] \<Rightarrow> None
           | p # ps \<Rightarrow> Some (ms\<lparr>m_absExprListPointers := ps, m_pointerTypes := types\<rparr>)))"

fun popN :: "'d MemoryStack \<Rightarrow> nat \<Rightarrow> 'd MemoryStack option" where
  "popN ms 0 = Some ms"
| "popN ms (Suc num) = (case pop ms of None \<Rightarrow> None | Some ms1 \<Rightarrow> popN ms1 num)"

definition popAndPush :: "'d MemoryStack \<Rightarrow> nat \<Rightarrow> 'd Absyn \<Rightarrow> 'd MemoryStack option" where
  "popAndPush ms num absynPointer =
     (case popN ms num of None \<Rightarrow> None | Some ms1 \<Rightarrow> Some (push ms1 absynPointer))"

definition popAndPushExprList :: "'d MemoryStack \<Rightarrow> nat \<Rightarrow> 'd AbsExpression list \<Rightarrow> 'd MemoryStack option" where
  "popAndPushExprList ms num l =
     (case popN ms num of None \<Rightarrow> None | Some ms1 \<Rightarrow> Some (pushExprList ms1 l))"

definition addString :: "'d MemoryStack \<Rightarrow> string \<Rightarrow> 'd MemoryStack" where
  "addString ms charPointer = ms\<lparr>m_charPointers := charPointer # m_charPointers ms\<rparr>"

definition useString :: "'d MemoryStack \<Rightarrow> string \<Rightarrow> 'd MemoryStack" where
  "useString ms charPointer = ms\<lparr>m_charPointers := remove1 charPointer (m_charPointers ms)\<rparr>"

text \<open>
  The parse tree of an expression: one constructor for each production of
  \<^verbatim>\<open>expression\<close> (the binary operators are grouped by the class they build, the
  compound assignments by the operator they insert).
\<close>

datatype 'd expression =
    P_NUMBER 'd
  | P_NAME string
  | P_INCR_NAME string
  | P_DECR_NAME string
  | P_NAME_INCR string
  | P_NAME_DECR string
  | P_ARITH "'d expression" ArithOpType "'d expression"
  | P_BOOL "'d expression" BoolOpType "'d expression"
  | P_NOT "'d expression"
  | P_PAREN "'d expression"
  | P_ASSIGN string "'d expression"
  | P_OPASSIGN string ArithOpType "'d expression"
  | P_CALL string "'d expression list"
  | P_MINUS "'d expression"

text \<open>The semantic value \<^verbatim>\<open>$$\<close> of each production.\<close>

fun ast :: "'d expression \<Rightarrow> 'd AbsExpression" where
  "ast (P_NUMBER c) = ConstantExpression c"
| "ast (P_NAME x) = VariableExpression x"
| "ast (P_INCR_NAME x) = PrefixOpExpression x OP_INCR"
| "ast (P_DECR_NAME x) = PrefixOpExpression x OP_DECR"
| "ast (P_NAME_INCR x) = PostfixOpExpression x OP_INCR"
| "ast (P_NAME_DECR x) = PostfixOpExpression x OP_DECR"
| "ast (P_ARITH l t r) = ArithmeticExpression (ast l) (ast r) t"
| "ast (P_BOOL l t r) = BooleanExpression (ast l) (ast r) t"
| "ast (P_NOT e) = NegationExpression (ast e)"
| "ast (P_PAREN e) = ast e"
| "ast (P_ASSIGN x e) = AssignExpression x (ast e)"
| "ast (P_OPASSIGN x t e) =
     AssignExpression x (ArithmeticExpression (VariableExpression x) (ast e) t)"
| "ast (P_CALL f es) = FunctionCallExpression f (map ast es)"
| "ast (P_MINUS e) = MinusExpression (ast e)"

text \<open>
  The tracker while an expression is parsed: the lexer registers the string of every
  \<^verbatim>\<open>NAME\<close> it reads (copystring), the operands are reduced left to right before
  their parent, and each reduction runs the tracker calls of its action.
\<close>

fun reduce :: "'d expression \<Rightarrow> 'd MemoryStack \<Rightarrow> 'd MemoryStack option"
and reduce_expressionlist :: "'d expression list \<Rightarrow> 'd AbsExpression list \<Rightarrow> 'd MemoryStack \<Rightarrow> 'd MemoryStack option" where
  "reduce (P_NUMBER c) ms = Some (push ms (AbsynExpression (ast (P_NUMBER c))))"
| "reduce (P_NAME x) ms =
     Some (push (useString (addString ms x) x) (AbsynExpression (ast (P_NAME x))))"
| "reduce (P_INCR_NAME x) ms =
     Some (push (useString (addString ms x) x) (AbsynExpression (ast (P_INCR_NAME x))))"
| "reduce (P_DECR_NAME x) ms =
     Some (push (useString (addString ms x) x) (AbsynExpression (ast (P_DECR_NAME x))))"
| "reduce (P_NAME_INCR x) ms =
     Some (push (useString (addString ms x) x) (AbsynExpression (ast (P_NAME_INCR x))))"
| "reduce (P_NAME_DECR x) ms =
     Some (push (useString (addString ms x) x) (AbsynExpression (ast (P_NAME_DECR x))))"
| "reduce (P_ARITH l t r) ms =
     (case reduce l ms of None \<Rightarrow> None
      | Some ms1 \<Rightarrow>
          (case reduce r ms1 of None \<Rightarrow> None
           | Some ms2 \<Rightarrow> popAndPush ms2 2 (AbsynExpression (ast (P_ARITH l t r)))))"
| "reduce (P_BOOL l t r) ms =
     (case reduce l ms of None \<Rightarrow> None
      | Some ms1 \<Rightarrow>
          (case reduce r ms1 of None \<Rightarrow> None
           | Some ms2 \<Rightarrow> popAndPush ms2 2 (AbsynExpression (ast (P_BOOL l t r)))))"
| "reduce (P_NOT e) ms =
     (case reduce e ms of None \<Rightarrow> None
      | Some ms1 \<Rightarrow> popAndPush ms1 1 (AbsynExpression (ast (P_NOT e))))"
| "reduce (P_PAREN e) ms = reduce e ms"
| "reduce (P_ASSIGN x e) ms =
     (case reduce e (addString ms x) of None \<Rightarrow> None
      | Some ms1 \<Rightarrow> popAndPush (useString ms1 x) 1 (AbsynExpression (ast (P_ASSIGN x e))))"
| "reduce (P_OPASSIGN x t e) ms =
     (case reduce e (addString ms x) of None \<Rightarrow> None
      | Some ms1 \<Rightarrow> popAndPush (useString ms1 x) 1 (AbsynExpression (ast (P_OPASSIGN x t e))))"
| "reduce (P_CALL f es) ms =
     (case (case es of
              [] \<Rightarrow> Some (pushExprList (addString ms f) [])
            | e # es' \<Rightarrow>
                (case reduce e (addString ms f) of None \<Rightarrow> None
                 | Some ms1 \<Rightarrow>
                     (case popAndPushExprList ms1 1 [ast e] of None \<Rightarrow> None
                      | Some ms2 \<Rightarrow> reduce_expressionlist es' [ast e] ms2))) of
        None \<Rightarrow> None
      | Some ms3 \<Rightarrow> popAndPush (useString ms3 f) 1 (AbsynExpression (ast (P_CALL f es))))"
| "reduce (P_MINUS e) ms = reduce e ms"
| "reduce_expressionlist [] l ms = Some ms"
| "reduce_expressionlist (e # es) l ms =
     (case reduce e ms of None \<Rightarrow> None
      | Some ms1 \<Rightarrow>
          (case pop ms1 of None \<Rightarrow> None
           | Some ms2 \<Rightarrow>
               reduce_expressionlist es (l @ [ast e])
                 (ms2\<lparr>m_absExprListPointers := (l @ [ast e]) # tl (m_absExprListPointers ms2)\<rparr>)))"

section \<open>Notions used in the statements\<close>

text \<open>The stack of a name: empty when the map has no entry for it.\<close>

definition varStack :: "'d RuntimeContext \<Rightarrow> string \<Rightarrow> 'd list" where
  "varStack s x = (case m_variables s x of None \<Rightarrow> [] | Some st \<Rightarrow> st)"

text \<open>
  What an evaluation keeps of the context it started in: the call stack, the function
  table and the error stream are the same, no stack of a variable has become shorter,
  and the output has only grown.
\<close>

definition extends :: "'d RuntimeContext \<Rightarrow> 'd RuntimeContext \<Rightarrow> bool" where
  "extends s s' \<longleftrightarrow>
     m_callStack s' = m_callStack s \<and> m_functionTable s' = m_functionTable s \<and>
     (\<forall>x. length (varStack s x) \<le> length (varStack s' x)) \<and>
     prefix (cout s) (cout s') \<and> cerr s' = cerr s"

text \<open>
  Two readings of a compound assignment \<^verbatim>\<open>x op= e\<close> on the evaluator. The first
  follows the specification's words: evaluate \<open>e\<close>, read \<open>x\<close>, combine, store. The
  second reads \<open>x\<close> before it evaluates \<open>e\<close>.
\<close>

definition compound_assignment_spec ::
  "'d double_ops \<Rightarrow> nat \<Rightarrow> string \<Rightarrow> ArithOpType \<Rightarrow> 'd AbsExpression \<Rightarrow> 'd RuntimeContext \<Rightarrow>
   'd result \<times> 'd RuntimeContext" where
  "compound_assignment_spec ops n x t e s =
     (case interpret_expr ops n e s of
        (Inl a, s1) \<Rightarrow> (Inl a, s1)
      | (Inr rhs, s1) \<Rightarrow>
          (case getVariable ops s1 x of
             Inl a \<Rightarrow> (Inl a, s1)
           | Inr lhs \<Rightarrow>
               (case arith ops s1 t lhs rhs of
                  Inl a \<Rightarrow> (Inl a, s1)
                | Inr v \<Rightarrow> (Inr v, setVariable s1 x v))))"

definition compound_assignment_code ::
  "'d double_ops \<Rightarrow> nat \<Rightarrow> string \<Rightarrow> ArithOpType \<Rightarrow> 'd AbsExpression \<Rightarrow> 'd RuntimeContext \<Rightarrow>
   'd result \<times> 'd RuntimeContext" where
  "compound_assignment_code ops n x t e s =
     (case getVariable ops s x of
        Inl a \<Rightarrow> (Inl a, s)
      | Inr lhs \<Rightarrow>
          (case interpret_expr ops n e s of
             (Inl a, s1) \<Rightarrow> (Inl a, s1)
           | (Inr rhs, s1) \<Rightarrow>
               (case arith ops s1 t lhs rhs of
                  Inl a \<Rightarrow> (Inl a, s1)
                | Inr v \<Rightarrow> (Inr v, setVariable s1 x v))))"

text \<open>
  A \<^verbatim>\<open>break\<close> or \<^verbatim>\<open>continue\<close> that no \<^verbatim>\<open>while\<close> of the statement encloses;
  a \<^verbatim>\<open>return\<close> anywhere in the statement; the exceptions they throw; a function
  table whose bodies have no \<^verbatim>\<open>break\<close> or \<^verbatim>\<open>continue\<close> outside a loop.
\<close>

fun loose_jump :: "'d AbsStatement \<Rightarrow> bool" and loose_jumps :: "'d AbsStatement list \<Rightarrow> bool" where
  "loose_jump (ExpressionStatement e) = False"
| "loose_jump (IfStatement e t None) = loose_jump t"
| "loose_jump (IfStatement e t (Some f)) = (loose_jump t \<or> loose_jump f)"
| "loose_jump (WhileStatement e b) = False"
| "loose_jump BreakStatement = True"
| "loose_jump ContinueStatement = True"
| "loose_jump HaltStatement = False"
| "loose_jump (ReturnStatement e) = False"
| "loose_jump (StatementList sts) = loose_jumps sts"
| "loose_jumps [] = False"
| "loose_jumps (st # sts) = (loose_jump st \<or> loose_jumps sts)"

fun has_return :: "'d AbsStatement \<Rightarrow> bool" and have_return :: "'d AbsStatement list \<Rightarrow> bool" where
  "has_return (ExpressionStatement e) = False"
| "has_return (IfStatement e t None) = has_return t"
| "has_return (IfStatement e t (Some f)) = (has_return t \<or> has_return f)"
| "has_return (WhileStatement e b) = has_return b"
| "has_return BreakStatement = False"
| "has_return ContinueStatement = False"
| "has_return HaltStatement = False"
| "has_return (ReturnStatement e) = True"
| "has_return (StatementList sts) = have_return sts"
| "have_return [] = False"
| "have_return (st # sts) = (has_return st \<or> have_return sts)"

fun is_jump :: "'d exception \<Rightarrow> bool" where
  "is_jump BreakFlowException = True"
| "is_jump ContinueFlowException = True"
| "is_jump x = False"

fun is_return :: "'d exception \<Rightarrow> bool" where
  "is_return (ReturnFlowException v) = True"
| "is_return x = False"

definition tableOK :: "(string \<rightharpoonup> 'd FunctionDefinition) \<Rightarrow> bool" where
  "tableOK T \<longleftrightarrow> (\<forall>f fd. T f = Some fd \<longrightarrow> \<not> loose_jumps (m_commands fd))"

text \<open>Every function of the table has passed the semantic checks of its definition.\<close>

definition checked :: "'d RuntimeContext \<Rightarrow> bool" where
  "checked s \<longleftrightarrow> (\<forall>f fd. m_functionTable s f = Some fd \<longrightarrow> \<not> detectedError (funcdef_checks fd reset))"

text \<open>
  The fragment the tracker holds once an expression is reduced, and the expressions that
  are a unary minus, in parentheses or not.
\<close>

fun tracked :: "'d expression \<Rightarrow> 'd AbsExpression" where
  "tracked (P_MINUS e) = tracked e"
| "tracked (P_PAREN e) = tracked e"
| "tracked e = ast e"

fun unary_minus :: "'d expression \<Rightarrow> bool" where
  "unary_minus (P_MINUS e) = True"
| "unary_minus (P_PAREN e) = unary_minus e"
| "unary_minus e = False"

text \<open>
  The message of throwError, in its parts: the name of the current function, the text
  of the exception, and the two reasons a call gives.
\<close>

definition currFunc :: "'d RuntimeContext \<Rightarrow> string" where
  "currFunc s = (case m_callStack s of [] \<Rightarrow> ''(main)'' | f # _ \<Rightarrow> m_name f)"

definition errorMessage :: "string \<Rightarrow> string \<Rightarrow> string" where
  "errorMessage cur errmessage = ''runtime error in function '' @ cur @ '': '' @ errmessage @ ''.''"

definition not_defined :: "string \<Rightarrow> string" where
  "not_defined name = ''function '' @ [CHR 0x27] @ name @ [CHR 0x27] @ '' not defined''"

definition wrong_number :: "string \<Rightarrow> string" where
  "wrong_number name = ''wrong number of arguments for function '' @ [CHR 0x27] @ name @ [CHR 0x27]"

text \<open>The names the lexer makes (bc.lex): \<^verbatim>\<open>[a-z]([a-z]|[0-9]|_)*\<close>.\<close>

definition is_NAME :: "string \<Rightarrow> bool" where
  "is_NAME str =
     (case str of
        [] \<Rightarrow> False
      | c # cs \<Rightarrow> c \<in> set ''abcdefghijklmnopqrstuvwxyz'' \<and>
          list_all (\<lambda>d. d \<in> set ''abcdefghijklmnopqrstuvwxyz0123456789_'') cs)"

text \<open>The names of the functions an expression or a statement calls, and those the
  bodies of a function table call.\<close>

fun called_expr :: "'d AbsExpression \<Rightarrow> string set" where
  "called_expr (ConstantExpression c) = {}"
| "called_expr (VariableExpression x) = {}"
| "called_expr (PrefixOpExpression x t) = {}"
| "called_expr (PostfixOpExpression x t) = {}"
| "called_expr (ArithmeticExpression l r t) = called_expr l \<union> called_expr r"
| "called_expr (BooleanExpression l r t) = called_expr l \<union> called_expr r"
| "called_expr (NegationExpression e) = called_expr e"
| "called_expr (AssignExpression x e) = called_expr e"
| "called_expr (FunctionCallExpression f es) = insert f (\<Union> (called_expr ` set es))"
| "called_expr (MinusExpression e) = called_expr e"

fun called_stmt :: "'d AbsStatement \<Rightarrow> string set" where
  "called_stmt (ExpressionStatement e) = called_expr e"
| "called_stmt (IfStatement e t None) = called_expr e \<union> called_stmt t"
| "called_stmt (IfStatement e t (Some f)) = called_expr e \<union> called_stmt t \<union> called_stmt f"
| "called_stmt (WhileStatement e b) = called_expr e \<union> called_stmt b"
| "called_stmt BreakStatement = {}"
| "called_stmt ContinueStatement = {}"
| "called_stmt HaltStatement = {}"
| "called_stmt (ReturnStatement None) = {}"
| "called_stmt (ReturnStatement (Some e)) = called_expr e"
| "called_stmt (StatementList sts) = \<Union> (called_stmt ` set sts)"

definition table_names :: "(string \<rightharpoonup> 'd FunctionDefinition) \<Rightarrow> string set" where
  "table_names T = {g. \<exists>f fd st. T f = Some fd \<and> st \<in> set (m_commands fd) \<and> g \<in> called_stmt st}"

text \<open>
  The runtime errors of an evaluation under a function table: a division or a modulo by
  zero, a call with the wrong number of arguments, or a call of a function that the table
  does not have.
\<close>

definition raised_by :: "(string \<rightharpoonup> 'd FunctionDefinition) \<Rightarrow> 'd exception \<Rightarrow> bool" where
  "raised_by T x \<longleftrightarrow>
     (\<forall>msg. x = RuntimeException msg \<longrightarrow>
        (\<exists>cur reason. msg = errorMessage cur reason \<and>
           (reason = ''division by zero'' \<or> reason = ''modulo zero'' \<or>
            (\<exists>g. reason = wrong_number g) \<or>
            (\<exists>g. reason = not_defined g \<and> T g = None \<and> is_NAME g))))"

section \<open>Example programs\<close>

text \<open>\<^verbatim>\<open>define f(x) { }\<close>\<close>

definition f_of_x :: "real FunctionDefinition" where
  "f_of_x = \<lparr> m_name = ''f'', m_args = [''x''], m_autos = [], m_commands = [] \<rparr>"

text \<open>\<^verbatim>\<open>define g() { x = 5 }\<close>, and a context that knows \<open>g\<close> and has \<open>x = 1\<close>.\<close>

definition g_sets_x :: "real FunctionDefinition" where
  "g_sets_x = \<lparr> m_name = ''g'', m_args = [], m_autos = [],
      m_commands = [ExpressionStatement (AssignExpression ''x'' (ConstantExpression 5))] \<rparr>"

definition g_defined :: "real RuntimeContext" where
  "g_defined = addFunctionDefinition initial g_sets_x"

definition x_is_1 :: "real RuntimeContext" where
  "x_is_1 = setVariable g_defined ''x'' 1"

text \<open>\<^verbatim>\<open>define h(p) { auto a; a = p / 0 }\<close>\<close>

definition h_divides :: "real FunctionDefinition" where
  "h_divides = \<lparr> m_name = ''h'', m_args = [''p''], m_autos = [''a''],
      m_commands = [ExpressionStatement (AssignExpression ''a''
        (ArithmeticExpression (VariableExpression ''p'') (ConstantExpression 0) OP_DIV))] \<rparr>"

definition h_defined :: "real RuntimeContext" where
  "h_defined = addFunctionDefinition initial h_divides"

text \<open>\<^verbatim>\<open>define f(n) { while (1) { if (n) return 7; break } }\<close> and the line
  \<^verbatim>\<open>f(1); while (1) break; f(0)\<close>\<close>

definition f_loop :: "real FunctionDefinition" where
  "f_loop = \<lparr> m_name = ''f'', m_args = [''n''], m_autos = [],
      m_commands = [WhileStatement (ConstantExpression 1)
        (StatementList [IfStatement (VariableExpression ''n'')
            (ReturnStatement (Some (ConstantExpression 7))) None, BreakStatement])] \<rparr>"

definition f_loop_defined :: "real RuntimeContext" where
  "f_loop_defined = addFunctionDefinition initial f_loop"

definition loop_line :: "real AbsStatement list" where
  "loop_line = [ExpressionStatement (FunctionCallExpression ''f'' [ConstantExpression 1]),
      WhileStatement (ConstantExpression 1) BreakStatement,
      ExpressionStatement (FunctionCallExpression ''f'' [ConstantExpression 0])]"

text \<open>\<^verbatim>\<open>define q() { halt }\<close>\<close>

definition q_halts :: "real FunctionDefinition" where
  "q_halts = \<lparr> m_name = ''q'', m_args = [], m_autos = [], m_commands = [HaltStatement] \<rparr>"

text \<open>The line \<^verbatim>\<open>x = 7; x; 1 / 0; x = 9\<close>, in three parts.\<close>

definition before_error :: "real AbsStatement list" where
  "before_error = [ExpressionStatement (AssignExpression ''x'' (ConstantExpression 7)),
      ExpressionStatement (VariableExpression ''x'')]"

definition failing :: "real AbsStatement" where
  "failing = ExpressionStatement
      (ArithmeticExpression (ConstantExpression 1) (ConstantExpression 0) OP_DIV)"

definition after_error :: "real AbsStatement list" where
  "after_error = [ExpressionStatement (AssignExpression ''x'' (ConstantExpression 9))]"

text \<open>A context that knows \<^verbatim>\<open>define f(x) { }\<close>.\<close>

definition f_defined :: "real RuntimeContext" where
  "f_defined = addFunctionDefinition initial f_of_x"

text \<open>\<^verbatim>\<open>define p(a, b) { return a * 10 + b }\<close> and the arguments of
  \<^verbatim>\<open>p(x = 1, x + 1)\<close>\<close>

definition p_adds :: "real FunctionDefinition" where
  "p_adds = \<lparr> m_name = ''p'', m_args = [''a'', ''b''], m_autos = [],
      m_commands = [ReturnStatement (Some (ArithmeticExpression
        (ArithmeticExpression (VariableExpression ''a'') (ConstantExpression 10) OP_MUL)
        (VariableExpression ''b'') OP_PLUS))] \<rparr>"

definition p_defined :: "real RuntimeContext" where
  "p_defined = addFunctionDefinition initial p_adds"

definition p_arguments :: "real AbsExpression list" where
  "p_arguments = [AssignExpression ''x'' (ConstantExpression 1),
      ArithmeticExpression (VariableExpression ''x'') (ConstantExpression 1) OP_PLUS]"

section \<open>Arithmetic and logical operators\<close>

text \<open>
  C6. When both operands of a division evaluate to values, the division raises the
  runtime error "division by zero" exactly when the right value compares equal to 0,
  and otherwise returns the quotient of the two values; a modulo raises "modulo zero"
  exactly when the right value compares equal to 0, and otherwise returns
  \<open>lhs - floor (lhs / rhs) * rhs\<close>.
\<close>

theorem division_and_modulo_by_zero:
  assumes "interpret_expr ops n l s = (Inr lhs, s1)"
    and "interpret_expr ops n r s1 = (Inr rhs, s2)"
  shows "interpret_expr ops (Suc n) (ArithmeticExpression l r OP_DIV) s =
           (if d_eq ops rhs (d_zero ops) then (Inl (throwError s2 ''division by zero''), s2)
            else (Inr (d_div ops lhs rhs), s2))
       \<and> interpret_expr ops (Suc n) (ArithmeticExpression l r OP_MOD) s =
           (if d_eq ops rhs (d_zero ops) then (Inl (throwError s2 ''modulo zero''), s2)
            else (Inr (d_sub ops lhs (d_mul ops (d_floor ops (d_div ops lhs rhs)) rhs)), s2))"
  using assms by (simp add: arith_def)

theorem division_and_modulo_by_zero_witness:
  "interpret_expr real_ops (Suc 1) (ArithmeticExpression (ConstantExpression 1) (ConstantExpression 0) OP_DIV) initial =
     (Inl (RuntimeException ''runtime error in function (main): division by zero.''), initial)
   \<and> interpret_expr real_ops (Suc 1) (ArithmeticExpression (ConstantExpression 5) (ConstantExpression 0) OP_MOD) initial =
     (Inl (RuntimeException ''runtime error in function (main): modulo zero.''), initial)
   \<and> interpret_expr real_ops (Suc 1) (ArithmeticExpression (ConstantExpression 7) (ConstantExpression 2) OP_DIV) initial =
     (Inr (7 / 2), initial)
   \<and> interpret_expr real_ops (Suc 1) (ArithmeticExpression (ConstantExpression (-7)) (ConstantExpression 2) OP_MOD) initial =
     (Inr 1, initial)"
  using division_and_modulo_by_zero [of real_ops 1 "ConstantExpression 1" initial 1 initial "ConstantExpression 0" 0 initial]
    division_and_modulo_by_zero [of real_ops 1 "ConstantExpression 5" initial 5 initial "ConstantExpression 0" 0 initial]
    division_and_modulo_by_zero [of real_ops 1 "ConstantExpression 7" initial 7 initial "ConstantExpression 2" 2 initial]
    division_and_modulo_by_zero [of real_ops 1 "ConstantExpression (-7)" initial "-7" initial "ConstantExpression 2" 2 initial]
  by (simp add: real_ops_def throwError_def initial_def)

text \<open>
  C7. There is no short circuit: once the left operand of \<open>&&\<close> or \<open>||\<close> has a value,
  whatever it is, the right operand is evaluated in the state the left one has left, and
  the state after the expression is the state after the right operand. The value is 1
  exactly when both values differ from 0 (for \<open>&&\<close>), or at least one does (for
  \<open>||\<close>), and 0 otherwise.
\<close>

theorem and_or_evaluate_both_operands:
  assumes "interpret_expr ops n l s = (Inr lhs, s1)"
    and "interpret_expr ops n r s1 = (res, s2)"
  shows "interpret_expr ops (Suc n) (BooleanExpression l r OP_AND) s =
           (case res of Inl x \<Rightarrow> Inl x
            | Inr rhs \<Rightarrow> Inr (if \<not> d_eq ops lhs (d_zero ops) \<and> \<not> d_eq ops rhs (d_zero ops)
                               then d_one ops else d_zero ops), s2)
       \<and> interpret_expr ops (Suc n) (BooleanExpression l r OP_OR) s =
           (case res of Inl x \<Rightarrow> Inl x
            | Inr rhs \<Rightarrow> Inr (if \<not> d_eq ops lhs (d_zero ops) \<or> \<not> d_eq ops rhs (d_zero ops)
                               then d_one ops else d_zero ops), s2)"
  using assms by (cases res) (simp_all add: boolean_def d_of_bool_def)

theorem and_or_evaluate_both_operands_witness:
  "interpret_expr real_ops (Suc 2)
      (BooleanExpression (ConstantExpression 0) (AssignExpression ''x'' (ConstantExpression 5)) OP_AND) initial =
     (Inr 0, setVariable initial ''x'' 5)
   \<and> interpret_expr real_ops (Suc 2)
      (BooleanExpression (ConstantExpression 1) (AssignExpression ''x'' (ConstantExpression 5)) OP_OR) initial =
     (Inr 1, setVariable initial ''x'' 5)"
  using and_or_evaluate_both_operands [of real_ops 2 "ConstantExpression 0" initial 0 initial
      "AssignExpression ''x'' (ConstantExpression 5)" "Inr 5" "setVariable initial ''x'' 5"]
    and_or_evaluate_both_operands [of real_ops 2 "ConstantExpression 1" initial 1 initial
      "AssignExpression ''x'' (ConstantExpression 5)" "Inr 5" "setVariable initial ''x'' 5"]
  by (simp add: real_ops_def numeral_2_eq_2)

text \<open>
  C9. When both operands of \<open>^\<close> evaluate to values, the result is
  \<open>pow (lhs, max (0, floor rhs))\<close>: the exponent is rounded down and, unless the
  rounded exponent is greater than 0, replaced by 0. With exact arithmetic \<open>2 ^ -3\<close>
  is 1 and \<open>2 ^ 2.9\<close> is 4.
\<close>

theorem power_clamps_exponent:
  assumes "interpret_expr ops n l s = (Inr lhs, s1)"
    and "interpret_expr ops n r s1 = (Inr rhs, s2)"
  shows "interpret_expr ops (Suc n) (ArithmeticExpression l r OP_POW) s =
           (Inr (d_pow ops lhs (std_max ops (d_zero ops) (d_floor ops rhs))), s2)
       \<and> std_max ops (d_zero ops) (d_floor ops rhs) =
           (if d_lt ops (d_zero ops) (d_floor ops rhs) then d_floor ops rhs else d_zero ops)"
  using assms by (simp add: arith_def std_max_def)

theorem power_clamps_exponent_witness:
  "interpret_expr real_ops (Suc 2)
      (ArithmeticExpression (ConstantExpression 2) (MinusExpression (ConstantExpression 3)) OP_POW) initial =
     (Inr 1, initial)
   \<and> interpret_expr real_ops (Suc 2)
      (ArithmeticExpression (ConstantExpression 2) (ConstantExpression (29 / 10)) OP_POW) initial =
     (Inr 4, initial)"
  using power_clamps_exponent [of real_ops 2 "ConstantExpression 2" initial 2 initial
      "MinusExpression (ConstantExpression 3)" "-3" initial]
    power_clamps_exponent [of real_ops 2 "ConstantExpression 2" initial 2 initial
      "ConstantExpression (29 / 10)" "29 / 10" initial]
  by (simp add: real_ops_def numeral_2_eq_2 std_max_def)

section \<open>Variables\<close>

text \<open>
  C1. Reading a name yields the top of its stack when the stack is not empty and 0 when
  the name has no entry. When every binding has been popped the entry is still there
  with an empty stack, and getVariable takes \<^verbatim>\<open>top()\<close> of it: after
  \<^verbatim>\<open>define f(x) { }\<close> and \<^verbatim>\<open>f(1)\<close> the stack of \<open>x\<close> is present and empty, and
  the command \<^verbatim>\<open>x\<close> does not print 0: the read is undefined.
\<close>

theorem read_of_popped_parameter:
  "interpret_expr ops (Suc n) (VariableExpression x) s =
     (case m_variables s x of
        None \<Rightarrow> Inr (d_zero ops)
      | Some [] \<Rightarrow> Inl UndefinedBehaviour
      | Some (v # vs) \<Rightarrow> Inr v, s)
   \<and> m_variables (snd (prog real_ops 5
     [FuncDefCommand f_of_x,
      StatementLineCommand [ExpressionStatement (FunctionCallExpression ''f'' [ConstantExpression 1])]]
     initial)) ''x'' = Some []
   \<and> fst (prog real_ops 5
     [FuncDefCommand f_of_x,
      StatementLineCommand [ExpressionStatement (FunctionCallExpression ''f'' [ConstantExpression 1])],
      StatementLineCommand [ExpressionStatement (VariableExpression ''x'')]] initial)
   = Uncaught UndefinedBehaviour"
proof -
  have "interpret_expr ops (Suc n) (VariableExpression x) s =
     (case m_variables s x of
        None \<Rightarrow> Inr (d_zero ops)
      | Some [] \<Rightarrow> Inl UndefinedBehaviour
      | Some (v # vs) \<Rightarrow> Inr v, s)"
    by (simp add: getVariable_def split: option.splits list.splits)
  moreover have "m_variables (snd (prog real_ops 5
     [FuncDefCommand f_of_x,
      StatementLineCommand [ExpressionStatement (FunctionCallExpression ''f'' [ConstantExpression 1])]]
     initial)) ''x'' = Some []
   \<and> fst (prog real_ops 5
     [FuncDefCommand f_of_x,
      StatementLineCommand [ExpressionStatement (FunctionCallExpression ''f'' [ConstantExpression 1])],
      StatementLineCommand [ExpressionStatement (VariableExpression ''x'')]] initial)
   = Uncaught UndefinedBehaviour"
    by code_simp
  ultimately show ?thesis by blast
qed

section \<open>Compound assignment\<close>

text \<open>
  C4, as stated, fails: with \<open>x = 1\<close> and \<^verbatim>\<open>define g() { x = 5 }\<close>, the interpreter
  gives \<^verbatim>\<open>x += g()\<close> the value 1, and "evaluate \<open>e\<close>, read \<open>x\<close>, combine, store"
  gives 5.
\<close>

theorem compound_assignment_counterexample:
  "fst (interpret_expr real_ops 6 (ast (P_OPASSIGN ''x'' OP_PLUS (P_CALL ''g'' []))) x_is_1) = Inr 1
   \<and> fst (compound_assignment_spec real_ops 6 ''x'' OP_PLUS (ast (P_CALL ''g'' [])) x_is_1) = Inr 5"
  by code_simp

text \<open>
  C4, amended. The compound assignment \<^verbatim>\<open>x op= e\<close> builds the tree of
  \<^verbatim>\<open>x = x op e\<close>, and evaluating it reads \<open>x\<close>, then evaluates \<open>e\<close>, combines the two
  values and stores the result: a side effect of \<open>e\<close> on \<open>x\<close> does not reach the left
  operand and is overwritten by the store.
\<close>

theorem compound_assignment_order:
  "ast (P_OPASSIGN x t e) = ast (P_ASSIGN x (P_ARITH (P_NAME x) t e))
   \<and> interpret_expr ops (Suc (Suc (Suc n))) (ast (P_OPASSIGN x t e)) s =
       compound_assignment_code ops (Suc n) x t (ast e) s"
  by (simp add: compound_assignment_code_def split: sum.splits prod.splits)

theorem compound_assignment_order_witness:
  "fst (interpret_expr real_ops (Suc (Suc (Suc 3))) (ast (P_OPASSIGN ''x'' OP_PLUS (P_CALL ''g'' []))) x_is_1) = Inr 1
   \<and> m_variables (snd (interpret_expr real_ops (Suc (Suc (Suc 3))) (ast (P_OPASSIGN ''x'' OP_PLUS (P_CALL ''g'' []))) x_is_1)) ''x'' = Some [1]"
proof -
  have "interpret_expr real_ops (Suc (Suc (Suc 3))) (ast (P_OPASSIGN ''x'' OP_PLUS (P_CALL ''g'' []))) x_is_1
      = compound_assignment_code real_ops (Suc 3) ''x'' OP_PLUS (ast (P_CALL ''g'' [])) x_is_1"
    by (rule conjunct2 [OF compound_assignment_order])
  moreover have "fst (compound_assignment_code real_ops (Suc 3) ''x'' OP_PLUS (ast (P_CALL ''g'' [])) x_is_1) = Inr 1
     \<and> m_variables (snd (compound_assignment_code real_ops (Suc 3) ''x'' OP_PLUS (ast (P_CALL ''g'' [])) x_is_1)) ''x'' = Some [1]"
    by code_simp
  ultimately show ?thesis by simp
qed

section \<open>Function calls\<close>

subsection \<open>What an evaluation keeps\<close>

lemma extends_refl: "extends s s"
  by (simp add: extends_def)

lemma extends_trans: "extends s s1 \<Longrightarrow> extends s1 s2 \<Longrightarrow> extends s s2"
proof -
  assume a: "extends s s1" and b: "extends s1 s2"
  have "length (varStack s x) \<le> length (varStack s2 x)" for x
    using a b le_trans unfolding extends_def by blast
  moreover have "prefix (cout s) (cout s2)"
    using a b prefix_order.trans unfolding extends_def by blast
  ultimately show ?thesis
    using a b by (simp add: extends_def)
qed

lemma setVariable_extends: "extends s (setVariable s x v)"
  by (auto simp: extends_def setVariable_def varStack_def split: option.splits list.splits)

lemma cout_extends: "extends s (s\<lparr>cout := cout s @ [v]\<rparr>)"
  by (simp add: extends_def varStack_def)

lemma interpret_arguments_extends:
  assumes "\<And>e s r s'. interp e s = (r, s') \<Longrightarrow> extends s s'"
  shows "interpret_arguments interp es s = (r, s') \<Longrightarrow> extends s s'"
proof (induction es arbitrary: s r s')
  case Nil
  then show ?case by (simp add: extends_refl)
next
  case (Cons e es)
  obtain r1 s1 where e: "interp e s = (r1, s1)" by (cases "interp e s")
  then have 1: "extends s s1" by (rule assms)
  show ?case
  proof (cases r1)
    case (Inl a)
    with Cons.prems e 1 show ?thesis by simp
  next
    case (Inr v)
    obtain r2 s2 where es: "interpret_arguments interp es s1 = (r2, s2)"
      by (cases "interpret_arguments interp es s1")
    then have 2: "extends s1 s2" by (rule Cons.IH)
    from Cons.prems e Inr es have "s' = s2" by (cases r2) simp_all
    with 1 2 show ?thesis by (blast intro: extends_trans)
  qed
qed

lemma interpret_statements_extends:
  assumes "\<And>st s r s'. interp st s = (r, s') \<Longrightarrow> extends s s'"
  shows "interpret_statements ops interp sts s = (r, s') \<Longrightarrow> extends s s'"
proof (induction sts arbitrary: s r s')
  case Nil
  then show ?case by (simp add: extends_refl)
next
  case (Cons st sts)
  obtain r1 s1 where st: "interp st s = (r1, s1)" by (cases "interp st s")
  then have 1: "extends s s1" by (rule assms)
  show ?case
  proof (cases r1)
    case (Inl a)
    with Cons.prems st 1 show ?thesis by simp
  next
    case (Inr v)
    with Cons.prems st have "interpret_statements ops interp sts s1 = (r, s')" by simp
    then have "extends s1 s'" by (rule Cons.IH)
    with 1 show ?thesis by (blast intro: extends_trans)
  qed
qed

lemma while_loop_extends:
  assumes c: "\<And>s r s'. cond s = (r, s') \<Longrightarrow> extends s s'"
    and b: "\<And>s r s'. body s = (r, s') \<Longrightarrow> extends s s'"
  shows "while_loop ops n cond body condition s = (r, s') \<Longrightarrow> extends s s'"
proof (induction n arbitrary: condition s r s')
  case 0
  then show ?case by (auto simp: extends_refl split: if_splits)
next
  case (Suc n)
  show ?case
  proof (cases "d_eq ops condition (d_zero ops)")
    case True
    with Suc.prems show ?thesis by (simp add: extends_refl)
  next
    case False
    obtain rb sb where body: "body s = (rb, sb)" by (cases "body s")
    then have 1: "extends s sb" by (rule b)
    obtain rc sc where cond: "cond sb = (rc, sc)" by (cases "cond sb")
    then have 2: "extends sb sc" by (rule c)
    have again: "extends s s'" if "rc = Inr v" "while_loop ops n cond body v sc = (r, s')" for v
      using Suc.IH [OF that(2)] 1 2 by (blast intro: extends_trans)
    have stop: "extends s s'" if "rc = Inl a" "s' = sc" for a
      using that 1 2 by (blast intro: extends_trans)
    from Suc.prems False body cond 1 again stop show ?thesis
      by (auto split: sum.splits exception.splits)
  qed
qed

subsection \<open>Entering and leaving a frame\<close>

lemma addVariable_fields:
  "m_callStack (addVariable s x v) = m_callStack s"
  "m_functionTable (addVariable s x v) = m_functionTable s"
  "cout (addVariable s x v) = cout s"
  "cerr (addVariable s x v) = cerr s"
  "varStack (addVariable s x v) y = (if y = x then v # varStack s x else varStack s y)"
  by (auto simp: addVariable_def varStack_def split: option.splits)

lemma addParameters_fields:
  "m_callStack (addParameters s ps vs) = m_callStack s"
  "m_functionTable (addParameters s ps vs) = m_functionTable s"
  "cout (addParameters s ps vs) = cout s"
  "cerr (addParameters s ps vs) = cerr s"
  by (induction s ps vs rule: addParameters.induct) (simp_all add: addVariable_fields)

lemma addParameters_length:
  "length ps = length vs \<Longrightarrow>
     length (varStack (addParameters s ps vs) x) = length (varStack s x) + count_list ps x"
  by (induction s ps vs rule: addParameters.induct) (simp_all add: addVariable_fields)

lemma addAutos_fields:
  "m_callStack (addAutos ops s as) = m_callStack s"
  "m_functionTable (addAutos ops s as) = m_functionTable s"
  "cout (addAutos ops s as) = cout s"
  "cerr (addAutos ops s as) = cerr s"
  by (induction as arbitrary: s) (simp_all add: addVariable_fields)

lemma addAutos_length:
  "length (varStack (addAutos ops s as) x) = length (varStack s x) + count_list as x"
  by (induction as arbitrary: s) (simp_all add: addVariable_fields)

lemma enterFunction_fields:
  "m_callStack (enterFunction ops s fd vs) = fd # m_callStack s"
  "m_functionTable (enterFunction ops s fd vs) = m_functionTable s"
  "cout (enterFunction ops s fd vs) = cout s"
  "cerr (enterFunction ops s fd vs) = cerr s"
  by (simp_all add: enterFunction_def Let_def addAutos_fields addParameters_fields)

lemma enterFunction_length:
  "length (m_args fd) = length vs \<Longrightarrow>
     length (varStack (enterFunction ops s fd vs) x) =
       length (varStack s x) + count_list (m_autos fd @ m_args fd) x"
proof -
  assume len: "length (m_args fd) = length vs"
  have "varStack (enterFunction ops s fd vs) x =
      varStack (addAutos ops (addParameters s (m_args fd) vs) (m_autos fd)) x"
    by (simp add: enterFunction_def Let_def varStack_def)
  then show ?thesis
    by (simp add: addAutos_length addParameters_length [OF len])
qed

lemma delVariable_Some:
  assumes "varStack s x \<noteq> []"
  shows "\<exists>s'. delVariable s x = Some s' \<and> m_callStack s' = m_callStack s \<and>
           m_functionTable s' = m_functionTable s \<and> cout s' = cout s \<and> cerr s' = cerr s \<and>
           (\<forall>y. varStack s' y = (if y = x then tl (varStack s x) else varStack s y))"
  using assms by (auto simp: delVariable_def varStack_def split: option.splits list.splits)

lemma delVariables_Some:
  assumes "\<forall>x. count_list xs x \<le> length (varStack s x)"
  shows "\<exists>s'. delVariables s xs = Some s' \<and> m_callStack s' = m_callStack s \<and>
           m_functionTable s' = m_functionTable s \<and> cout s' = cout s \<and> cerr s' = cerr s \<and>
           (\<forall>y. varStack s' y = drop (count_list xs y) (varStack s y))"
  using assms
proof (induction xs arbitrary: s)
  case Nil
  then show ?case by simp
next
  case (Cons x xs)
  from Cons.prems have "count_list (x # xs) x \<le> length (varStack s x)" by blast
  then have "varStack s x \<noteq> []" by auto
  from delVariable_Some [OF this] obtain s1 where
    s1: "delVariable s x = Some s1" "m_callStack s1 = m_callStack s"
      "m_functionTable s1 = m_functionTable s" "cout s1 = cout s" "cerr s1 = cerr s"
      "\<And>y. varStack s1 y = (if y = x then tl (varStack s x) else varStack s y)"
    by blast
  have "\<forall>y. count_list xs y \<le> length (varStack s1 y)"
  proof
    fix y
    from Cons.prems have "count_list (x # xs) y \<le> length (varStack s y)" by blast
    then show "count_list xs y \<le> length (varStack s1 y)"
      by (cases "y = x") (simp_all add: s1(6))
  qed
  from Cons.IH [OF this] obtain s' where
    s': "delVariables s1 xs = Some s'" "m_callStack s' = m_callStack s1"
      "m_functionTable s' = m_functionTable s1" "cout s' = cout s1" "cerr s' = cerr s1"
      "\<And>y. varStack s' y = drop (count_list xs y) (varStack s1 y)"
    by blast
  have "varStack s' y = drop (count_list (x # xs) y) (varStack s y)" for y
    by (cases "y = x") (simp_all add: s'(6) s1(6) drop_Suc drop_tl)
  with s1 s' show ?case by simp
qed

lemma exitFunction_Some:
  assumes "m_callStack s = fd # rest"
    and "\<forall>x. count_list (m_autos fd @ m_args fd) x \<le> length (varStack s x)"
  shows "\<exists>s'. exitFunction s = Some s' \<and> m_callStack s' = rest \<and>
           m_functionTable s' = m_functionTable s \<and> cout s' = cout s \<and> cerr s' = cerr s \<and>
           (\<forall>y. varStack s' y = drop (count_list (m_autos fd @ m_args fd) y) (varStack s y))"
proof -
  let ?s0 = "s\<lparr>m_callStack := rest\<rparr>"
  have vs0: "varStack ?s0 y = varStack s y" for y by (simp add: varStack_def)
  have "\<forall>x. count_list (m_autos fd) x \<le> length (varStack ?s0 x)"
    using assms(2) by (simp add: vs0) (meson add_leD1)
  from delVariables_Some [OF this] obtain s1 where
    s1: "delVariables ?s0 (m_autos fd) = Some s1" "m_callStack s1 = rest"
      "m_functionTable s1 = m_functionTable s" "cout s1 = cout s" "cerr s1 = cerr s"
      "\<And>y. varStack s1 y = drop (count_list (m_autos fd) y) (varStack s y)"
    by (auto simp: vs0)
  have "\<forall>x. count_list (m_args fd) x \<le> length (varStack s1 x)"
  proof
    fix x
    from assms(2) have "count_list (m_autos fd) x + count_list (m_args fd) x \<le> length (varStack s x)"
      by simp
    then show "count_list (m_args fd) x \<le> length (varStack s1 x)" by (simp add: s1(6))
  qed
  from delVariables_Some [OF this] obtain s' where
    s': "delVariables s1 (m_args fd) = Some s'" "m_callStack s' = m_callStack s1"
      "m_functionTable s' = m_functionTable s1" "cout s' = cout s1" "cerr s' = cerr s1"
      "\<And>y. varStack s' y = drop (count_list (m_args fd) y) (varStack s1 y)"
    by blast
  have "varStack s' y = drop (count_list (m_autos fd @ m_args fd) y) (varStack s y)" for y
    by (simp add: s'(6) s1(6) add.commute)
  with s1 s' assms(1) show ?thesis by (simp add: exitFunction_def)
qed

text \<open>Leaving a frame that was entered and whose body kept the stacks: exitFunction succeeds.\<close>

lemma exit_after_body:
  assumes len: "length (m_args fd) = length vs"
    and body: "extends (enterFunction ops s1 fd vs) s2"
  shows "\<exists>s3. exitFunction s2 = Some s3 \<and> extends s1 s3 \<and> m_callStack s2 = fd # m_callStack s3 \<and>
           (\<forall>x. count_list (m_autos fd @ m_args fd) x \<le> length (varStack s2 x)) \<and>
           (\<forall>x. varStack s3 x = drop (count_list (m_autos fd @ m_args fd) x) (varStack s2 x))"
proof -
  from body have cs: "m_callStack s2 = fd # m_callStack s1"
    and ft: "m_functionTable s2 = m_functionTable s1"
    and le: "\<And>x. length (varStack (enterFunction ops s1 fd vs) x) \<le> length (varStack s2 x)"
    and co: "prefix (cout s1) (cout s2)" and ce: "cerr s2 = cerr s1"
    by (simp_all add: extends_def enterFunction_fields)
  have depth: "length (varStack s1 x) + count_list (m_autos fd @ m_args fd) x \<le> length (varStack s2 x)" for x
    using le [of x] by (simp only: enterFunction_length [OF len])
  then have enough: "\<forall>x. count_list (m_autos fd @ m_args fd) x \<le> length (varStack s2 x)"
    by (meson add_leD2)
  from exitFunction_Some [OF cs enough] obtain s3 where
    s3: "exitFunction s2 = Some s3" "m_callStack s3 = m_callStack s1"
      "m_functionTable s3 = m_functionTable s2" "cout s3 = cout s2" "cerr s3 = cerr s2"
      "\<And>y. varStack s3 y = drop (count_list (m_autos fd @ m_args fd) y) (varStack s2 y)"
    by blast
  have "length (varStack s1 x) \<le> length (varStack s3 x)" for x
    using depth [of x] by (simp add: s3(6))
  then have "extends s1 s3"
    using s3 ft co ce by (simp add: extends_def)
  with s3 cs enough show ?thesis by simp
qed

lemma leave_call_result:
  assumes "exitFunction s2 = Some s3"
  shows "leave_call ops (r, s2) =
           (case r of Inl (ReturnFlowException v) \<Rightarrow> Inr v | Inl x \<Rightarrow> Inl x | Inr v \<Rightarrow> Inr (d_zero ops), s3)"
  using assms by (simp add: leave_call_def split: sum.splits exception.splits)

lemma interpret_arguments_length:
  "interpret_arguments interp es s = (Inr vs, s') \<Longrightarrow> length vs = length es"
  by (induction es arbitrary: s vs) (fastforce split: prod.splits sum.splits)+

lemma call_extends:
  assumes args: "\<And>e s r s'. interpret_expr ops n e s = (r, s') \<Longrightarrow> extends s s'"
    and stmts: "\<And>st s r s'. interpret_stmt ops n st s = (r, s') \<Longrightarrow> extends s s'"
    and call: "interpret_expr ops (Suc n) (FunctionCallExpression name argList) s = (r, s')"
  shows "extends s s'"
proof (cases "getFunctionDefinition s name")
  case None
  with call show ?thesis by (simp add: extends_refl)
next
  case (Some fd)
  show ?thesis
  proof (cases "length (m_args fd) = length argList")
    case False
    with call Some show ?thesis by (simp add: extends_refl)
  next
    case True
    obtain ra s1 where a: "interpret_arguments (interpret_expr ops n) argList s = (ra, s1)"
      by (cases "interpret_arguments (interpret_expr ops n) argList s")
    have 1: "extends s s1"
      using args a by (rule interpret_arguments_extends)
    show ?thesis
    proof (cases ra)
      case (Inl x)
      with call Some True a 1 show ?thesis by simp
    next
      case (Inr vs)
      obtain rb s2 where b: "interpret_statements ops (interpret_stmt ops n) (m_commands fd)
          (enterFunction ops s1 fd vs) = (rb, s2)"
        by (cases "interpret_statements ops (interpret_stmt ops n) (m_commands fd)
          (enterFunction ops s1 fd vs)")
      have 2: "extends (enterFunction ops s1 fd vs) s2"
        using stmts b by (rule interpret_statements_extends)
      have "length argList = length vs"
        using a Inr interpret_arguments_length by fastforce
      with True have "length (m_args fd) = length vs" by simp
      from exit_after_body [OF this 2] obtain s3 where
        s3: "exitFunction s2 = Some s3" "extends s1 s3" by blast
      from call Some True a Inr b have "s' = s3"
        by (simp add: leave_call_result [OF s3(1)])
      with 1 s3(2) show ?thesis by (blast intro: extends_trans)
    qed
  qed
qed

lemma interpret_extends:
  "(\<forall>e s r s'. interpret_expr ops n e s = (r, s') \<longrightarrow> extends s s') \<and>
   (\<forall>st s r s'. interpret_stmt ops n st s = (r, s') \<longrightarrow> extends s s')"
proof (induction n)
  case 0
  then show ?case by (simp add: extends_refl)
next
  case (Suc n)
  then have IHe: "\<And>e s r s'. interpret_expr ops n e s = (r, s') \<Longrightarrow> extends s s'"
    and IHs: "\<And>st s r s'. interpret_stmt ops n st s = (r, s') \<Longrightarrow> extends s s'"
    by blast+
  have e: "extends s s'" if "interpret_expr ops (Suc n) e s = (r, s')" for e s r s'
  proof (cases e)
    case (FunctionCallExpression name argList)
    with that IHe IHs show ?thesis by (blast intro: call_extends)
  next
    case (ArithmeticExpression l r' t)
    with that show ?thesis
      by (auto split: prod.splits sum.splits dest!: IHe intro: extends_trans)
  next
    case (BooleanExpression l r' t)
    with that show ?thesis
      by (auto split: prod.splits sum.splits dest!: IHe intro: extends_trans)
  qed (use that in \<open>auto split: prod.splits sum.splits dest!: IHe
        intro: extends_refl extends_trans [OF _ setVariable_extends] setVariable_extends\<close>)
  have s: "extends s s'" if "interpret_stmt ops (Suc n) st s = (r, s')" for st s r s'
  proof (cases st)
    case (ExpressionStatement e)
    with that show ?thesis
      by (auto split: prod.splits sum.splits if_splits dest!: IHe
          intro: extends_trans [OF _ cout_extends])
  next
    case (IfStatement c t f)
    with that show ?thesis
      by (auto split: prod.splits sum.splits if_splits option.splits dest!: IHe IHs
          intro: extends_trans)
  next
    case (WhileStatement c b)
    obtain rc sc where c: "interpret_expr ops n c s = (rc, sc)"
      by (cases "interpret_expr ops n c s")
    then have 1: "extends s sc" by (rule IHe)
    show ?thesis
    proof (cases rc)
      case (Inl x)
      with that WhileStatement c 1 show ?thesis by simp
    next
      case (Inr v)
      with that WhileStatement c
      have "while_loop ops n (interpret_expr ops n c) (interpret_stmt ops n b) v sc = (r, s')"
        by simp
      then have "extends sc s'"
        by (rule while_loop_extends [rotated 2]) (blast intro: IHe IHs)+
      with 1 show ?thesis by (blast intro: extends_trans)
    qed
  next
    case (ReturnStatement eo)
    with that show ?thesis
      by (cases eo) (auto split: prod.splits sum.splits dest!: IHe intro: extends_refl)
  next
    case (StatementList sts)
    with that have "interpret_statements ops (interpret_stmt ops n) sts s = (r, s')" by simp
    then show ?thesis
      by (rule interpret_statements_extends [rotated]) (blast intro: IHs)
  qed (use that in \<open>auto intro: extends_refl\<close>)
  from e s show ?case by blast
qed

text \<open>
  C2. Once the arguments of a call are evaluated and the frame is entered, however the
  body ends (it falls through, returns, raises a runtime error, halts), exitFunction
  runs and succeeds: the call stack, which held the callee on top of the caller's stack
  during the body, is the caller's stack again, and each name has lost exactly as many
  values as it occurs among the autos and the parameters. A Return becomes the value of
  the call, falling through gives 0, any other exception goes on to the caller.
\<close>

theorem call_exit_unwinds:
  assumes "getFunctionDefinition s name = Some fd"
    and "length (m_args fd) = length argList"
    and "interpret_arguments (interpret_expr ops n) argList s = (Inr vals, s1)"
    and "interpret_statements ops (interpret_stmt ops n) (m_commands fd)
           (enterFunction ops s1 fd vals) = (r, s2)"
    and "r \<noteq> Inl OutOfFuel" and "r \<noteq> Inl UndefinedBehaviour"
  shows "\<exists>s3. exitFunction s2 = Some s3
     \<and> interpret_expr ops (Suc n) (FunctionCallExpression name argList) s =
         (case r of Inl (ReturnFlowException v) \<Rightarrow> Inr v | Inl x \<Rightarrow> Inl x | Inr v \<Rightarrow> Inr (d_zero ops), s3)
     \<and> m_callStack (enterFunction ops s1 fd vals) = fd # m_callStack s
     \<and> m_callStack s2 = fd # m_callStack s
     \<and> m_callStack s3 = m_callStack s
     \<and> (\<forall>x. count_list (m_autos fd @ m_args fd) x \<le> length (varStack s2 x))
     \<and> (\<forall>x. varStack s3 x = drop (count_list (m_autos fd @ m_args fd) x) (varStack s2 x))"
proof -
  have IHe: "\<And>e s r s'. interpret_expr ops n e s = (r, s') \<Longrightarrow> extends s s'"
    and IHs: "\<And>st s r s'. interpret_stmt ops n st s = (r, s') \<Longrightarrow> extends s s'"
    using interpret_extends [of ops n] by blast+
  have 1: "extends s s1"
    using IHe assms(3) by (rule interpret_arguments_extends)
  have 2: "extends (enterFunction ops s1 fd vals) s2"
    using IHs assms(4) by (rule interpret_statements_extends)
  have len: "length (m_args fd) = length vals"
    using interpret_arguments_length [OF assms(3)] assms(2) by simp
  from exit_after_body [OF len 2] obtain s3 where
    s3: "exitFunction s2 = Some s3" "extends s1 s3" "m_callStack s2 = fd # m_callStack s3"
      "\<forall>x. count_list (m_autos fd @ m_args fd) x \<le> length (varStack s2 x)"
      "\<forall>x. varStack s3 x = drop (count_list (m_autos fd @ m_args fd) x) (varStack s2 x)"
    by blast
  have cs: "m_callStack s1 = m_callStack s" "m_callStack s3 = m_callStack s1"
    using 1 s3(2) by (simp_all add: extends_def)
  have "interpret_expr ops (Suc n) (FunctionCallExpression name argList) s =
      (case r of Inl (ReturnFlowException v) \<Rightarrow> Inr v | Inl x \<Rightarrow> Inl x | Inr v \<Rightarrow> Inr (d_zero ops), s3)"
    using assms(1-4) by (simp add: leave_call_result [OF s3(1)])
  with s3 cs show ?thesis
    by (simp add: enterFunction_fields)
qed

theorem call_exit_unwinds_witness:
  "fst (interpret_expr real_ops (Suc 4) (FunctionCallExpression ''h'' [ConstantExpression 3]) h_defined)
     = Inl (RuntimeException ''runtime error in function h: division by zero.'')
   \<and> m_callStack (snd (interpret_expr real_ops (Suc 4)
        (FunctionCallExpression ''h'' [ConstantExpression 3]) h_defined)) = []
   \<and> varStack (snd (interpret_expr real_ops (Suc 4)
        (FunctionCallExpression ''h'' [ConstantExpression 3]) h_defined)) ''p'' = []
   \<and> varStack (snd (interpret_expr real_ops (Suc 4)
        (FunctionCallExpression ''h'' [ConstantExpression 3]) h_defined)) ''a'' = []"
proof -
  let ?body = "interpret_statements real_ops (interpret_stmt real_ops 4) (m_commands h_divides)
      (enterFunction real_ops h_defined h_divides [3])"
  have 1: "getFunctionDefinition h_defined ''h'' = Some h_divides"
    by (simp add: getFunctionDefinition_def h_defined_def addFunctionDefinition_def h_divides_def)
  have 2: "length (m_args h_divides) = length [ConstantExpression 3 :: real AbsExpression]"
    by (simp add: h_divides_def)
  have 3: "interpret_arguments (interpret_expr real_ops 4) [ConstantExpression 3] h_defined
      = (Inr [3], h_defined)"
    by (simp add: eval_nat_numeral)
  have 4: "?body = (fst ?body, snd ?body)" by simp
  have 5: "fst ?body = Inl (RuntimeException ''runtime error in function h: division by zero.'')"
    by code_simp
  have 6: "m_callStack h_defined = []"
    by (simp add: h_defined_def addFunctionDefinition_def initial_def)
  have 7: "varStack (snd ?body) ''p'' = [3] \<and> varStack (snd ?body) ''a'' = [0]"
    by code_simp
  have 8: "count_list (m_autos h_divides @ m_args h_divides) ''p'' = 1
      \<and> count_list (m_autos h_divides @ m_args h_divides) ''a'' = 1"
    by (simp add: h_divides_def)
  from call_exit_unwinds [OF 1 2 3 4] 5 obtain s3 where
    s3: "interpret_expr real_ops (Suc 4) (FunctionCallExpression ''h'' [ConstantExpression 3]) h_defined
        = (Inl (RuntimeException ''runtime error in function h: division by zero.''), s3)"
      "m_callStack s3 = m_callStack h_defined"
      "\<forall>x. varStack s3 x = drop (count_list (m_autos h_divides @ m_args h_divides) x)
          (varStack (snd ?body) x)"
    by auto
  show ?thesis
    unfolding s3(1) fst_conv snd_conv
    using s3(2) 6 7 8 by (simp add: s3(3))
qed

section \<open>Non-local transfers\<close>

lemma checks_fields:
  fixes st :: "'d AbsStatement" and sts :: "'d AbsStatement list"
  shows "m_while (statement_checks st c) = m_while c \<and>
   m_inFunction (statement_checks st c) = m_inFunction c \<and>
   (m_error c \<longrightarrow> m_error (statement_checks st c))"
  and "m_while (statements_checks sts c) = m_while c \<and>
   m_inFunction (statements_checks sts c) = m_inFunction c \<and>
   (m_error c \<longrightarrow> m_error (statements_checks sts c))"
  by (induction st c and sts c rule: statement_checks_statements_checks.induct)
    (simp_all add: enterWhile_def exitWhile_def checkBreak_def checkContinue_def checkReturn_def)

lemma checks_loose_jump:
  fixes st :: "'d AbsStatement" and sts :: "'d AbsStatement list"
  shows "\<not> m_error (statement_checks st c) \<Longrightarrow> m_while c \<le> 0 \<Longrightarrow> \<not> loose_jump st"
  and "\<not> m_error (statements_checks sts c) \<Longrightarrow> m_while c \<le> 0 \<Longrightarrow> \<not> loose_jumps sts"
proof (induction st c and sts c rule: statement_checks_statements_checks.induct)
  case (3 e t f c)
  then show ?case using checks_fields(1) [of f "statement_checks t c"] checks_fields(1) [of t c]
    by auto
next
  case (5 c)
  then show ?case by (simp add: checkBreak_def isInWhile_def)
next
  case (6 c)
  then show ?case by (simp add: checkContinue_def isInWhile_def)
next
  case (11 st sts c)
  then show ?case using checks_fields(2) [of sts "statement_checks st c"] checks_fields(1) [of st c]
    by auto
qed simp_all

lemma checks_has_return:
  fixes st :: "'d AbsStatement" and sts :: "'d AbsStatement list"
  shows "\<not> m_error (statement_checks st c) \<Longrightarrow> \<not> m_inFunction c \<Longrightarrow> \<not> has_return st"
  and "\<not> m_error (statements_checks sts c) \<Longrightarrow> \<not> m_inFunction c \<Longrightarrow> \<not> have_return sts"
proof (induction st c and sts c rule: statement_checks_statements_checks.induct)
  case (3 e t f c)
  then show ?case using checks_fields(1) [of f "statement_checks t c"] checks_fields(1) [of t c]
    by auto
next
  case (4 e b c)
  then show ?case by (simp add: exitWhile_def enterWhile_def)
next
  case (8 e c)
  then show ?case by (simp add: checkReturn_def isInFunction_def)
next
  case (11 st sts c)
  then show ?case using checks_fields(2) [of sts "statement_checks st c"] checks_fields(1) [of st c]
    by auto
qed simp_all

lemma variablelist_checks_while:
  "m_while (variablelist_checks cur xs c) = m_while c"
  by (induction xs arbitrary: cur c) (simp_all add: checkFunctionVariable_def split: option.splits)

lemma funcdef_checks_loose_jumps:
  assumes "\<not> detectedError (funcdef_checks fd reset)"
  shows "\<not> loose_jumps (m_commands fd)"
proof -
  let ?c4 = "variablelist_checks [] (m_autos fd)
      (setFunctionArguments (variablelist_checks [] (m_args fd) (sem_enterFunction reset)) (m_args fd))"
  have "m_while ?c4 = 0"
    by (simp add: variablelist_checks_while setFunctionArguments_def sem_enterFunction_def reset_def)
  moreover have "\<not> m_error (statements_checks (m_commands fd) ?c4)"
    using assms by (simp add: detectedError_def funcdef_checks_def Let_def sem_exitFunction_def)
  ultimately show ?thesis
    using checks_loose_jump(2) by fastforce
qed

lemma interpret_arguments_safe:
  assumes "\<And>e s r s'. interp e s = (r, s') \<Longrightarrow> T s \<Longrightarrow> T s' \<and> (\<forall>x. r = Inl x \<longrightarrow> Q x)"
  shows "interpret_arguments interp es s = (r, s') \<Longrightarrow> T s \<Longrightarrow> T s' \<and> (\<forall>x. r = Inl x \<longrightarrow> Q x)"
proof (induction es arbitrary: s r s')
  case Nil
  then show ?case by auto
next
  case (Cons e es)
  obtain r1 s1 where e: "interp e s = (r1, s1)" by (cases "interp e s")
  from assms [OF e Cons.prems(2)] have 1: "T s1" "\<forall>x. r1 = Inl x \<longrightarrow> Q x" by blast+
  show ?case
  proof (cases r1)
    case (Inl a)
    with Cons.prems e 1 show ?thesis by auto
  next
    case (Inr v)
    obtain r2 s2 where es: "interpret_arguments interp es s1 = (r2, s2)"
      by (cases "interpret_arguments interp es s1")
    from Cons.IH [OF es 1(1)] have 2: "T s2" "\<forall>x. r2 = Inl x \<longrightarrow> Q x" by blast+
    from Cons.prems e Inr es 2 show ?thesis by (cases r2) auto
  qed
qed

lemma interpret_statements_safe:
  assumes "\<And>st s r s'. interp st s = (r, s') \<Longrightarrow> T s \<Longrightarrow>
      T s' \<and> (\<forall>x. r = Inl x \<longrightarrow> (is_jump x \<longrightarrow> loose_jump st) \<and> (is_return x \<longrightarrow> has_return st))"
  shows "interpret_statements ops interp sts s = (r, s') \<Longrightarrow> T s \<Longrightarrow>
      T s' \<and> (\<forall>x. r = Inl x \<longrightarrow> (is_jump x \<longrightarrow> loose_jumps sts) \<and> (is_return x \<longrightarrow> have_return sts))"
proof (induction sts arbitrary: s r s')
  case Nil
  then show ?case by auto
next
  case (Cons st sts)
  obtain r1 s1 where st: "interp st s = (r1, s1)" by (cases "interp st s")
  from assms [OF st Cons.prems(2)] have 1: "T s1"
    "\<forall>x. r1 = Inl x \<longrightarrow> (is_jump x \<longrightarrow> loose_jump st) \<and> (is_return x \<longrightarrow> has_return st)" by blast+
  show ?case
  proof (cases r1)
    case (Inl a)
    with Cons.prems st 1 show ?thesis by auto
  next
    case (Inr v)
    with Cons.prems st have "interpret_statements ops interp sts s1 = (r, s')" by simp
    from Cons.IH [OF this 1(1)] show ?thesis by auto
  qed
qed

lemma while_loop_safe:
  assumes c: "\<And>s r s'. cond s = (r, s') \<Longrightarrow> T s \<Longrightarrow>
      T s' \<and> (\<forall>x. r = Inl x \<longrightarrow> \<not> is_jump x \<and> \<not> is_return x)"
    and b: "\<And>s r s'. body s = (r, s') \<Longrightarrow> T s \<Longrightarrow> T s' \<and> (\<forall>x. r = Inl x \<longrightarrow> is_return x \<longrightarrow> R)"
  shows "while_loop ops n cond body condition s = (r, s') \<Longrightarrow> T s \<Longrightarrow>
      T s' \<and> (\<forall>x. r = Inl x \<longrightarrow> \<not> is_jump x \<and> (is_return x \<longrightarrow> R))"
proof (induction n arbitrary: condition s r s')
  case 0
  then show ?case by (auto split: if_splits)
next
  case (Suc n)
  show ?case
  proof (cases "d_eq ops condition (d_zero ops)")
    case True
    with Suc.prems show ?thesis by auto
  next
    case False
    obtain rb sb where body: "body s = (rb, sb)" by (cases "body s")
    from b [OF body Suc.prems(2)] have 1: "T sb" "\<forall>x. rb = Inl x \<longrightarrow> is_return x \<longrightarrow> R" by blast+
    obtain rc sc where cond: "cond sb = (rc, sc)" by (cases "cond sb")
    from c [OF cond 1(1)] have 2: "T sc" "\<forall>x. rc = Inl x \<longrightarrow> \<not> is_jump x \<and> \<not> is_return x"
      by blast+
    have again: "T s' \<and> (\<forall>x. r = Inl x \<longrightarrow> \<not> is_jump x \<and> (is_return x \<longrightarrow> R))"
      if "while_loop ops n cond body v sc = (r, s')" for v
      using Suc.IH [OF that 2(1)] .
    have next_round: "T s' \<and> (\<forall>x. r = Inl x \<longrightarrow> \<not> is_jump x \<and> (is_return x \<longrightarrow> R))"
      if "(case rc of Inl x \<Rightarrow> (Inl x, sc) | Inr v \<Rightarrow> while_loop ops n cond body v sc) = (r, s')"
      using that 2 again by (cases rc) auto
    show ?thesis
    proof (cases rb)
      case (Inr v)
      with Suc.prems False body cond next_round show ?thesis
        by (auto split: sum.splits)
    next
      case (Inl x)
      with Suc.prems False body cond next_round 1 show ?thesis
        by (cases x) (auto split: sum.splits)
    qed
  qed
qed

lemma leave_call_safe:
  assumes "leave_call ops (rb, s2) = (r, s')" and "r = Inl x"
  shows "\<not> is_return x \<and> (is_jump x \<longrightarrow> rb = Inl x)"
  using assms
  by (cases rb; cases "exitFunction s2")
     (auto simp: leave_call_def split: exception.splits)

lemma leave_call_table:
  assumes "leave_call ops (rb, s2) = (r, s')"
  shows "m_functionTable s' = m_functionTable s2"
proof (cases "exitFunction s2")
  case None
  with assms show ?thesis
    by (auto simp: leave_call_def split: sum.splits exception.splits)
next
  case (Some s3)
  obtain fd rest where cs: "m_callStack s2 = fd # rest"
    using Some by (cases "m_callStack s2") (simp_all add: exitFunction_def)
  have dv: "delVariable a y = Some b \<Longrightarrow> m_functionTable b = m_functionTable a" for a b :: "'a RuntimeContext" and y
    by (auto simp: delVariable_def split: option.splits list.splits)
  have dvs: "delVariables a ys = Some b \<Longrightarrow> m_functionTable b = m_functionTable a" for a b :: "'a RuntimeContext" and ys
    by (induction ys arbitrary: a) (auto split: option.splits dest: dv)
  from Some cs have "m_functionTable s3 = m_functionTable s2"
    by (auto simp: exitFunction_def split: option.splits dest!: dvs)
  with assms Some show ?thesis
    by (auto simp: leave_call_def split: sum.splits exception.splits)
qed

lemma interpret_safe:
  "(\<forall>e s r s'. interpret_expr ops n e s = (r, s') \<longrightarrow> tableOK (m_functionTable s) \<longrightarrow>
      tableOK (m_functionTable s') \<and> (\<forall>x. r = Inl x \<longrightarrow> \<not> is_jump x \<and> \<not> is_return x)) \<and>
   (\<forall>st s r s'. interpret_stmt ops n st s = (r, s') \<longrightarrow> tableOK (m_functionTable s) \<longrightarrow>
      tableOK (m_functionTable s') \<and>
      (\<forall>x. r = Inl x \<longrightarrow> (is_jump x \<longrightarrow> loose_jump st) \<and> (is_return x \<longrightarrow> has_return st)))"
proof (induction n)
  case 0
  then show ?case by auto
next
  case (Suc n)
  then have IHe: "\<And>e s r s'. interpret_expr ops n e s = (r, s') \<Longrightarrow> tableOK (m_functionTable s) \<Longrightarrow>
      tableOK (m_functionTable s') \<and> (\<forall>x. r = Inl x \<longrightarrow> \<not> is_jump x \<and> \<not> is_return x)"
    and IHs: "\<And>st s r s'. interpret_stmt ops n st s = (r, s') \<Longrightarrow> tableOK (m_functionTable s) \<Longrightarrow>
      tableOK (m_functionTable s') \<and>
      (\<forall>x. r = Inl x \<longrightarrow> (is_jump x \<longrightarrow> loose_jump st) \<and> (is_return x \<longrightarrow> has_return st))"
    by blast+
  have e: "tableOK (m_functionTable s') \<and> (\<forall>x. r = Inl x \<longrightarrow> \<not> is_jump x \<and> \<not> is_return x)"
    if run: "interpret_expr ops (Suc n) e s = (r, s')" and T: "tableOK (m_functionTable s)"
    for e s r s'
  proof (cases e)
    case (ConstantExpression c)
    with run T show ?thesis by auto
  next
    case (VariableExpression name)
    with run T show ?thesis
      by (auto simp: getVariable_def split: option.splits list.splits)
  next
    case (PrefixOpExpression name t)
    with run T show ?thesis
      by (auto simp: getVariable_def setVariable_def split: option.splits list.splits)
  next
    case (PostfixOpExpression name t)
    with run T show ?thesis
      by (auto simp: getVariable_def setVariable_def split: option.splits list.splits)
  next
    case (ArithmeticExpression l r' t)
    obtain r1 s1 where l: "interpret_expr ops n l s = (r1, s1)" by (cases "interpret_expr ops n l s")
    note 1 = IHe [OF l T]
    obtain r2 s2 where r: "interpret_expr ops n r' s1 = (r2, s2)" by (cases "interpret_expr ops n r' s1")
    note 2 = IHe [OF r conjunct1 [OF 1]]
    from run ArithmeticExpression l r 1 2 show ?thesis
      by (cases r1; cases r2; cases t) (auto simp: arith_def throwError_def split: if_splits)
  next
    case (BooleanExpression l r' t)
    obtain r1 s1 where l: "interpret_expr ops n l s = (r1, s1)" by (cases "interpret_expr ops n l s")
    note 1 = IHe [OF l T]
    obtain r2 s2 where r: "interpret_expr ops n r' s1 = (r2, s2)" by (cases "interpret_expr ops n r' s1")
    note 2 = IHe [OF r conjunct1 [OF 1]]
    from run BooleanExpression l r 1 2 show ?thesis
      by (cases r1; cases r2) auto
  next
    case (NegationExpression e1)
    obtain r1 s1 where l: "interpret_expr ops n e1 s = (r1, s1)" by (cases "interpret_expr ops n e1 s")
    note 1 = IHe [OF l T]
    from run NegationExpression l 1 show ?thesis by (cases r1) auto
  next
    case (AssignExpression name e1)
    obtain r1 s1 where l: "interpret_expr ops n e1 s = (r1, s1)" by (cases "interpret_expr ops n e1 s")
    note 1 = IHe [OF l T]
    from run AssignExpression l 1 show ?thesis
      by (cases r1) (auto simp: setVariable_def split: option.splits list.splits)
  next
    case (MinusExpression e1)
    obtain r1 s1 where l: "interpret_expr ops n e1 s = (r1, s1)" by (cases "interpret_expr ops n e1 s")
    note 1 = IHe [OF l T]
    from run MinusExpression l 1 show ?thesis by (cases r1) auto
  next
    case (FunctionCallExpression name argList)
    show ?thesis
    proof (cases "getFunctionDefinition s name")
      case None
      with run T FunctionCallExpression show ?thesis by (auto simp: throwError_def)
    next
      case (Some fd)
      show ?thesis
      proof (cases "length (m_args fd) = length argList")
        case False
        with run T FunctionCallExpression Some show ?thesis by (auto simp: throwError_def)
      next
        case True
        obtain ra s1 where a: "interpret_arguments (interpret_expr ops n) argList s = (ra, s1)"
          by (cases "interpret_arguments (interpret_expr ops n) argList s")
        have 1: "tableOK (m_functionTable s1) \<and> (\<forall>x. ra = Inl x \<longrightarrow> \<not> is_jump x \<and> \<not> is_return x)"
          using a T
          by (rule interpret_arguments_safe [where T = "\<lambda>s. tableOK (m_functionTable s)", rotated])
            (use IHe in blast)
        show ?thesis
        proof (cases ra)
          case (Inl x)
          with run FunctionCallExpression Some True a 1 show ?thesis by auto
        next
          case (Inr vs)
          let ?s = "enterFunction ops s1 fd vs"
          obtain rb s2 where b: "interpret_statements ops (interpret_stmt ops n) (m_commands fd) ?s = (rb, s2)"
            by (cases "interpret_statements ops (interpret_stmt ops n) (m_commands fd) ?s")
          have Ts: "tableOK (m_functionTable ?s)"
            using 1 by (simp add: enterFunction_fields)
          have 2: "tableOK (m_functionTable s2) \<and>
              (\<forall>x. rb = Inl x \<longrightarrow> (is_jump x \<longrightarrow> loose_jumps (m_commands fd)) \<and>
                 (is_return x \<longrightarrow> have_return (m_commands fd)))"
            using b Ts
            by (rule interpret_statements_safe [where T = "\<lambda>s. tableOK (m_functionTable s)", rotated])
              (use IHs in blast)
          have "m_functionTable s1 = m_functionTable s"
            using interpret_arguments_extends [OF _ a] interpret_extends [of ops n]
            by (metis extends_def)
          with Some T have ok: "\<not> loose_jumps (m_commands fd)"
            by (metis 1 getFunctionDefinition_def tableOK_def)
          from run FunctionCallExpression Some True a Inr b
          have lc: "leave_call ops (rb, s2) = (r, s')" by simp
          from leave_call_table [OF lc] 2 have "tableOK (m_functionTable s')" by simp
          moreover have "\<not> is_jump x \<and> \<not> is_return x" if "r = Inl x" for x
            using leave_call_safe [OF lc that] 2 ok by auto
          ultimately show ?thesis by blast
        qed
      qed
    qed
  qed
  have s: "tableOK (m_functionTable s') \<and>
      (\<forall>x. r = Inl x \<longrightarrow> (is_jump x \<longrightarrow> loose_jump st) \<and> (is_return x \<longrightarrow> has_return st))"
    if run: "interpret_stmt ops (Suc n) st s = (r, s')" and T: "tableOK (m_functionTable s)"
    for st s r s'
  proof (cases st)
    case (ExpressionStatement e1)
    obtain r1 s1 where l: "interpret_expr ops n e1 s = (r1, s1)" by (cases "interpret_expr ops n e1 s")
    note 1 = IHe [OF l T]
    from run ExpressionStatement l 1 show ?thesis by (cases r1) (auto split: if_splits)
  next
    case (IfStatement c t f)
    obtain r1 s1 where l: "interpret_expr ops n c s = (r1, s1)" by (cases "interpret_expr ops n c s")
    note 1 = IHe [OF l T]
    obtain rt st' where t: "interpret_stmt ops n t s1 = (rt, st')" by (cases "interpret_stmt ops n t s1")
    note 2 = IHs [OF t conjunct1 [OF 1]]
    show ?thesis
    proof (cases f)
      case None
      with run IfStatement l t 1 2 show ?thesis
        by (cases r1; cases rt) (auto split: if_splits)
    next
      case (Some fs)
      obtain rf sf where f: "interpret_stmt ops n fs s1 = (rf, sf)" by (cases "interpret_stmt ops n fs s1")
      note 3 = IHs [OF f conjunct1 [OF 1]]
      from run IfStatement Some l t f 1 2 3 show ?thesis
        by (cases r1; cases rt; cases rf) (auto split: if_splits)
    qed
  next
    case (WhileStatement c b)
    obtain r1 s1 where l: "interpret_expr ops n c s = (r1, s1)" by (cases "interpret_expr ops n c s")
    note 1 = IHe [OF l T]
    show ?thesis
    proof (cases r1)
      case (Inl x)
      with run WhileStatement l 1 show ?thesis by auto
    next
      case (Inr v)
      with run WhileStatement l
      have w: "while_loop ops n (interpret_expr ops n c) (interpret_stmt ops n b) v s1 = (r, s')"
        by simp
      have "tableOK (m_functionTable s') \<and> (\<forall>x. r = Inl x \<longrightarrow> \<not> is_jump x \<and> (is_return x \<longrightarrow> has_return b))"
        using w conjunct1 [OF 1]
        by (rule while_loop_safe [where T = "\<lambda>s. tableOK (m_functionTable s)", rotated 2])
          (use IHe IHs in blast)+
      with WhileStatement show ?thesis by auto
    qed
  next
    case BreakStatement
    with run T show ?thesis by auto
  next
    case ContinueStatement
    with run T show ?thesis by auto
  next
    case HaltStatement
    with run T show ?thesis by auto
  next
    case (ReturnStatement eo)
    show ?thesis
    proof (cases eo)
      case None
      with run T ReturnStatement show ?thesis by auto
    next
      case (Some e1)
      obtain r1 s1 where l: "interpret_expr ops n e1 s = (r1, s1)" by (cases "interpret_expr ops n e1 s")
      note 1 = IHe [OF l T]
      from run ReturnStatement Some l 1 show ?thesis by (cases r1) auto
    qed
  next
    case (StatementList sts)
    with run have "interpret_statements ops (interpret_stmt ops n) sts s = (r, s')" by simp
    then have "tableOK (m_functionTable s') \<and>
        (\<forall>x. r = Inl x \<longrightarrow> (is_jump x \<longrightarrow> loose_jumps sts) \<and> (is_return x \<longrightarrow> have_return sts))"
      using T
      by (rule interpret_statements_safe [where T = "\<lambda>s. tableOK (m_functionTable s)", rotated])
        (use IHs in blast)
    with StatementList show ?thesis by simp
  qed
  from e s show ?case by blast
qed

lemma checked_tableOK: "checked s \<Longrightarrow> tableOK (m_functionTable s)"
  unfolding checked_def tableOK_def by (blast dest: funcdef_checks_loose_jumps)

lemma statements_checked_safe:
  assumes "checked s" and "\<not> detectedError (statements_checks sts reset)"
    and "interpret_stmt ops n (StatementList sts) s = (Inl x, s')"
  shows "\<not> is_jump x \<and> \<not> is_return x"
proof -
  have "\<not> loose_jumps sts"
    using assms(2) checks_loose_jump(2) [of sts reset] by (simp add: detectedError_def reset_def)
  moreover have "\<not> have_return sts"
    using assms(2) checks_has_return(2) [of sts reset] by (simp add: detectedError_def reset_def)
  ultimately show ?thesis
    using interpret_safe [of ops n] assms(3) checked_tableOK [OF assms(1)]
    by (metis has_return.simps(9) loose_jump.simps(9))
qed

lemma command_checked:
  assumes "checked s" and "command ops n cmd s = (status, s')"
  shows "checked s'"
proof (cases cmd)
  case (FuncDefCommand fd)
  with assms show ?thesis
    by (auto simp: command_def checked_def addFunctionDefinition_def split: if_splits)
next
  case (StatementLineCommand sts)
  obtain r s1 where run: "interpret_stmt ops n (StatementList sts) s = (r, s1)"
    by (cases "interpret_stmt ops n (StatementList sts) s")
  then have "m_functionTable s1 = m_functionTable s"
    using interpret_extends [of ops n] by (metis extends_def)
  with assms(1) have "checked s1" "checked (s1\<lparr>cerr := c\<rparr>)" for c
    by (simp_all add: checked_def)
  with assms StatementLineCommand run show ?thesis
    by (auto simp: command_def split: if_splits sum.splits exception.splits)
qed

lemma command_safe:
  assumes "checked s" and "fst (command ops n cmd s) = Uncaught x"
  shows "\<not> is_jump x \<and> \<not> is_return x"
proof (cases cmd)
  case (FuncDefCommand fd)
  with assms show ?thesis by (auto simp: command_def split: if_splits)
next
  case (StatementLineCommand sts)
  show ?thesis
  proof (cases "detectedError (statements_checks sts reset)")
    case True
    with assms StatementLineCommand show ?thesis by (simp add: command_def)
  next
    case False
    obtain r s1 where run: "interpret_stmt ops n (StatementList sts) s = (r, s1)"
      by (cases "interpret_stmt ops n (StatementList sts) s")
    with assms(2) StatementLineCommand False have "r = Inl x"
      by (auto simp: command_def split: sum.splits exception.splits)
    with run statements_checked_safe [OF assms(1) False] show ?thesis by blast
  qed
qed

lemma prog_safe:
  "checked s \<Longrightarrow> fst (prog ops n cmds s) = Uncaught x \<Longrightarrow> \<not> is_jump x \<and> \<not> is_return x"
proof (induction cmds arbitrary: s)
  case Nil
  then show ?case by simp
next
  case (Cons cmd cmds)
  obtain status s1 where c: "command ops n cmd s = (status, s1)" by (cases "command ops n cmd s")
  from command_checked [OF Cons.prems(1) c] have 1: "checked s1" .
  show ?case
  proof (cases status)
    case Parsing
    with Cons.prems c have "fst (prog ops n cmds s1) = Uncaught x" by simp
    from Cons.IH [OF 1 this] show ?thesis .
  next
    case Accepted
    with Cons.prems c show ?thesis by simp
  next
    case (Uncaught y)
    with Cons.prems c have "fst (command ops n cmd s) = Uncaught x" by simp
    from command_safe [OF Cons.prems(1) this] show ?thesis .
  qed
qed

lemma initial_checked: "checked initial"
  by (simp add: checked_def initial_def)

text \<open>
  C3. In a context whose functions have all passed the semantic checks, a statement
  line that passes them never ends in a Break, a Continue or a Return: the loops catch
  the first two, the calls the third. The same holds for everything the interpreter runs
  from a fresh start, where only checked definitions enter the function table: of the
  transfers, only Halt reaches the top level. A Break out of the body of a loop ends
  that loop normally, and a Continue goes to the next evaluation of its condition.
\<close>

theorem toplevel_surfaces_only_halt:
  assumes "\<forall>f fd. m_functionTable s f = Some fd \<longrightarrow> \<not> detectedError (funcdef_checks fd reset)"
    and "\<not> detectedError (statements_checks sts reset)"
  shows "fst (interpret_stmt ops n (StatementList sts) s) \<noteq> Inl BreakFlowException
     \<and> fst (interpret_stmt ops n (StatementList sts) s) \<noteq> Inl ContinueFlowException
     \<and> (\<forall>v. fst (interpret_stmt ops n (StatementList sts) s) \<noteq> Inl (ReturnFlowException v))
     \<and> fst (command ops n (StatementLineCommand sts) s) \<noteq> Uncaught BreakFlowException
     \<and> fst (command ops n (StatementLineCommand sts) s) \<noteq> Uncaught ContinueFlowException
     \<and> (\<forall>v. fst (command ops n (StatementLineCommand sts) s) \<noteq> Uncaught (ReturnFlowException v))
     \<and> fst (prog ops n cmds initial) \<noteq> Uncaught BreakFlowException
     \<and> fst (prog ops n cmds initial) \<noteq> Uncaught ContinueFlowException
     \<and> (\<forall>v. fst (prog ops n cmds initial) \<noteq> Uncaught (ReturnFlowException v))
     \<and> (\<forall>c b v s0 s1 s2 m.
          interpret_expr ops (Suc m) c s0 = (Inr v, s1) \<and> \<not> d_eq ops v (d_zero ops) \<and>
          interpret_stmt ops (Suc m) b s1 = (Inl BreakFlowException, s2) \<longrightarrow>
          interpret_stmt ops (Suc (Suc m)) (WhileStatement c b) s0 = (Inr (d_zero ops), s2))
     \<and> (\<forall>c b v s0 s1 s2 m.
          interpret_expr ops (Suc m) c s0 = (Inr v, s1) \<and> \<not> d_eq ops v (d_zero ops) \<and>
          interpret_stmt ops (Suc m) b s1 = (Inl ContinueFlowException, s2) \<longrightarrow>
          interpret_stmt ops (Suc (Suc m)) (WhileStatement c b) s0 =
            (case interpret_expr ops (Suc m) c s2 of
               (Inl x, s3) \<Rightarrow> (Inl x, s3)
             | (Inr v', s3) \<Rightarrow>
                 while_loop ops m (interpret_expr ops (Suc m) c) (interpret_stmt ops (Suc m) b) v' s3))"
proof -
  have c: "checked s" using assms(1) by (simp add: checked_def)
  have 1: "\<not> is_jump x \<and> \<not> is_return x" if "fst (interpret_stmt ops n (StatementList sts) s) = Inl x" for x
    using statements_checked_safe [OF c assms(2), of ops n x "snd (interpret_stmt ops n (StatementList sts) s)"] that
    by (metis prod.collapse)
  have 2: "\<not> is_jump x \<and> \<not> is_return x" if "fst (command ops n (StatementLineCommand sts) s) = Uncaught x" for x
    using command_safe [OF c that] .
  have 3: "\<not> is_jump x \<and> \<not> is_return x" if "fst (prog ops n cmds initial) = Uncaught x" for x
    using prog_safe [OF initial_checked that] .
  have j: "is_jump BreakFlowException" "is_jump ContinueFlowException" "is_return (ReturnFlowException v)"
    for v :: 'a by simp_all
  have 4: "interpret_stmt ops (Suc (Suc m)) (WhileStatement c b) s0 = (Inr (d_zero ops), s2)"
    if "interpret_expr ops (Suc m) c s0 = (Inr v, s1)" "\<not> d_eq ops v (d_zero ops)"
      "interpret_stmt ops (Suc m) b s1 = (Inl BreakFlowException, s2)"
    for c b v s0 s1 s2 m
    using that by simp
  have 5: "interpret_stmt ops (Suc (Suc m)) (WhileStatement c b) s0 =
            (case interpret_expr ops (Suc m) c s2 of
               (Inl x, s3) \<Rightarrow> (Inl x, s3)
             | (Inr v', s3) \<Rightarrow>
                 while_loop ops m (interpret_expr ops (Suc m) c) (interpret_stmt ops (Suc m) b) v' s3)"
    if "interpret_expr ops (Suc m) c s0 = (Inr v, s1)" "\<not> d_eq ops v (d_zero ops)"
      "interpret_stmt ops (Suc m) b s1 = (Inl ContinueFlowException, s2)"
    for c b v s0 s1 s2 m
    using that by simp
  have "fst (interpret_stmt ops n (StatementList sts) s) \<noteq> Inl BreakFlowException
     \<and> fst (interpret_stmt ops n (StatementList sts) s) \<noteq> Inl ContinueFlowException
     \<and> (\<forall>v. fst (interpret_stmt ops n (StatementList sts) s) \<noteq> Inl (ReturnFlowException v))
     \<and> fst (command ops n (StatementLineCommand sts) s) \<noteq> Uncaught BreakFlowException
     \<and> fst (command ops n (StatementLineCommand sts) s) \<noteq> Uncaught ContinueFlowException
     \<and> (\<forall>v. fst (command ops n (StatementLineCommand sts) s) \<noteq> Uncaught (ReturnFlowException v))
     \<and> fst (prog ops n cmds initial) \<noteq> Uncaught BreakFlowException
     \<and> fst (prog ops n cmds initial) \<noteq> Uncaught ContinueFlowException
     \<and> (\<forall>v. fst (prog ops n cmds initial) \<noteq> Uncaught (ReturnFlowException v))"
    using 1 2 3 j by blast
  with 4 5 show ?thesis by blast
qed

theorem toplevel_surfaces_only_halt_witness:
  "\<not> detectedError (funcdef_checks f_loop reset)
   \<and> \<not> detectedError (statements_checks loop_line reset)
   \<and> fst (command real_ops 9 (StatementLineCommand loop_line) f_loop_defined) \<noteq> Uncaught BreakFlowException
   \<and> fst (command real_ops 9 (StatementLineCommand loop_line) f_loop_defined) = Parsing
   \<and> cout (snd (command real_ops 9 (StatementLineCommand loop_line) f_loop_defined)) = [7, 0]
   \<and> fst (prog real_ops 9
        [FuncDefCommand q_halts,
         StatementLineCommand [ExpressionStatement (FunctionCallExpression ''q'' [])]] initial) = Accepted"
proof -
  have 1: "\<not> detectedError (funcdef_checks f_loop reset)" by code_simp
  have 2: "\<not> detectedError (statements_checks loop_line reset)" by code_simp
  have 3: "\<forall>f fd. m_functionTable f_loop_defined f = Some fd \<longrightarrow>
      \<not> detectedError (funcdef_checks fd reset)"
    using 1 by (auto simp: f_loop_defined_def addFunctionDefinition_def initial_def split: if_splits)
  have 4: "fst (command real_ops 9 (StatementLineCommand loop_line) f_loop_defined) = Parsing
      \<and> cout (snd (command real_ops 9 (StatementLineCommand loop_line) f_loop_defined)) = [7, 0]"
    by code_simp
  have 5: "fst (prog real_ops 9
        [FuncDefCommand q_halts,
         StatementLineCommand [ExpressionStatement (FunctionCallExpression ''q'' [])]] initial) = Accepted"
    by code_simp
  from toplevel_surfaces_only_halt [OF 3 2, of real_ops 9 "[]"] 1 2 4 5 show ?thesis
    by blast
qed

section \<open>Lookup, arity and arguments of a call\<close>

lemma throwError_errorMessage:
  "throwError s errmessage = RuntimeException (errorMessage (currFunc s) errmessage)"
  by (simp add: throwError_def errorMessage_def currFunc_def)

lemma is_NAME_no_quote:
  assumes "is_NAME g"
  shows "CHR 0x27 \<notin> set g"
proof (cases g)
  case Nil
  then show ?thesis by simp
next
  case (Cons c cs)
  have 1: "CHR 0x27 \<notin> set ''abcdefghijklmnopqrstuvwxyz''" by code_simp
  have 2: "CHR 0x27 \<notin> set ''abcdefghijklmnopqrstuvwxyz0123456789_''" by code_simp
  from assms Cons have c: "c \<in> set ''abcdefghijklmnopqrstuvwxyz''"
    and cs: "\<forall>d\<in>set cs. d \<in> set ''abcdefghijklmnopqrstuvwxyz0123456789_''"
    unfolding is_NAME_def list_all_iff by simp_all
  from c 1 have "c \<noteq> CHR 0x27" by blast
  moreover from cs 2 have "CHR 0x27 \<notin> set cs" by blast
  ultimately show ?thesis using Cons by simp
qed

lemma after_last_quote:
  assumes "q \<notin> set g" and "q \<notin> set f" and "xs @ q # g = ys @ q # f"
  shows "g = f"
proof -
  have "takeWhile (\<lambda>c. c \<noteq> q) (rev (xs @ q # g)) = rev g"
    using assms(1) by (auto simp: takeWhile_tail)
  moreover have "takeWhile (\<lambda>c. c \<noteq> q) (rev (ys @ q # f)) = rev f"
    using assms(2) by (auto simp: takeWhile_tail)
  ultimately show ?thesis using assms(3) by simp
qed

lemma errorMessage_eq:
  "errorMessage c r = errorMessage c' r' \<longleftrightarrow> c @ '': '' @ r = c' @ '': '' @ r'"
proof -
  have "errorMessage c r = ''runtime error in function '' @ ((c @ '': '' @ r) @ ''.'')" for c r
    by (simp add: errorMessage_def)
  then show ?thesis by (simp only: same_append_eq append_same_eq)
qed

lemma not_defined_differs:
  "errorMessage c ''division by zero'' \<noteq> errorMessage c' (not_defined f)"
  "errorMessage c ''modulo zero'' \<noteq> errorMessage c' (not_defined f)"
  "errorMessage c (wrong_number g) \<noteq> errorMessage c' (not_defined f)"
proof -
  have differ: "c @ '': '' @ r \<noteq> c' @ '': '' @ not_defined f" if "last ('': '' @ r) \<noteq> CHR ''d''" for r
  proof
    assume "c @ '': '' @ r = c' @ '': '' @ not_defined f"
    then have "last (c @ '': '' @ r) = last (c' @ '': '' @ not_defined f)" by (rule arg_cong)
    with that show False by (simp add: not_defined_def)
  qed
  show "errorMessage c ''division by zero'' \<noteq> errorMessage c' (not_defined f)"
    unfolding errorMessage_eq by (rule differ) simp
  show "errorMessage c ''modulo zero'' \<noteq> errorMessage c' (not_defined f)"
    unfolding errorMessage_eq by (rule differ) simp
  show "errorMessage c (wrong_number g) \<noteq> errorMessage c' (not_defined f)"
    unfolding errorMessage_eq by (rule differ) (simp add: wrong_number_def)
qed

lemma not_defined_inj:
  assumes "is_NAME g" and "is_NAME f"
    and "errorMessage c (not_defined g) = errorMessage c' (not_defined f)"
  shows "g = f"
proof -
  have "(c @ '': function '') @ CHR 0x27 # g = (c' @ '': function '') @ CHR 0x27 # f"
  proof -
    have "c @ '': '' @ not_defined g = ((c @ '': function '') @ CHR 0x27 # g) @ (CHR 0x27 # '' not defined'')"
      for c g by (simp add: not_defined_def)
    with assms(3) show ?thesis
      unfolding errorMessage_eq by (simp only: append_same_eq)
  qed
  with is_NAME_no_quote [OF assms(1)] is_NAME_no_quote [OF assms(2)] show ?thesis
    by (rule after_last_quote)
qed

lemma raised_by_not_defined:
  assumes "raised_by T (RuntimeException (errorMessage c (not_defined f)))" and "is_NAME f"
  shows "T f = None"
proof -
  from assms(1) obtain cur reason where
    m: "errorMessage cur reason = errorMessage c (not_defined f)"
    and r: "reason = ''division by zero'' \<or> reason = ''modulo zero'' \<or>
            (\<exists>g. reason = wrong_number g) \<or>
            (\<exists>g. reason = not_defined g \<and> T g = None \<and> is_NAME g)"
    unfolding raised_by_def by metis
  from r show ?thesis
  proof (elim disjE exE conjE)
    fix g
    assume g: "reason = not_defined g" "T g = None" "is_NAME g"
    from not_defined_inj [OF g(3) assms(2)] m g(1) have "g = f" by simp
    with g(2) show ?thesis by simp
  qed (use m not_defined_differs in auto)
qed

lemma interpret_arguments_raise:
  assumes "\<And>e s r s'. e \<in> set es \<Longrightarrow> interp e s = (r, s') \<Longrightarrow> P s \<Longrightarrow> P s' \<and> (\<forall>x. r = Inl x \<longrightarrow> Q x)"
  shows "interpret_arguments interp es s = (r, s') \<Longrightarrow> P s \<Longrightarrow> P s' \<and> (\<forall>x. r = Inl x \<longrightarrow> Q x)"
  using assms
proof (induction es arbitrary: s r s')
  case Nil
  then show ?case by auto
next
  case (Cons e es)
  obtain r1 s1 where e: "interp e s = (r1, s1)" by (cases "interp e s")
  from Cons.prems(3) [OF _ e Cons.prems(2)] have 1: "P s1" "\<forall>x. r1 = Inl x \<longrightarrow> Q x" by simp_all
  show ?case
  proof (cases r1)
    case (Inl a)
    with Cons.prems(1) e 1 show ?thesis by auto
  next
    case (Inr v)
    obtain r2 s2 where es: "interpret_arguments interp es s1 = (r2, s2)"
      by (cases "interpret_arguments interp es s1")
    have "P s2 \<and> (\<forall>x. r2 = Inl x \<longrightarrow> Q x)"
      using es 1(1) by (rule Cons.IH) (rule Cons.prems(3), simp_all)
    with Cons.prems(1) e Inr es show ?thesis by (cases r2) auto
  qed
qed

lemma interpret_statements_raise:
  assumes "\<And>st s r s'. st \<in> set sts \<Longrightarrow> interp st s = (r, s') \<Longrightarrow> P s \<Longrightarrow> P s' \<and> (\<forall>x. r = Inl x \<longrightarrow> Q x)"
  shows "interpret_statements ops interp sts s = (r, s') \<Longrightarrow> P s \<Longrightarrow> P s' \<and> (\<forall>x. r = Inl x \<longrightarrow> Q x)"
  using assms
proof (induction sts arbitrary: s r s')
  case Nil
  then show ?case by auto
next
  case (Cons st sts)
  obtain r1 s1 where st: "interp st s = (r1, s1)" by (cases "interp st s")
  from Cons.prems(3) [OF _ st Cons.prems(2)] have 1: "P s1" "\<forall>x. r1 = Inl x \<longrightarrow> Q x" by simp_all
  show ?case
  proof (cases r1)
    case (Inl a)
    with Cons.prems(1) st 1 show ?thesis by auto
  next
    case (Inr v)
    with Cons.prems(1) st have "interpret_statements ops interp sts s1 = (r, s')" by simp
    then show ?thesis
      using 1(1) by (rule Cons.IH) (rule Cons.prems(3), simp_all)
  qed
qed

lemma while_loop_raise:
  assumes c: "\<And>s r s'. cond s = (r, s') \<Longrightarrow> P s \<Longrightarrow> P s' \<and> (\<forall>x. r = Inl x \<longrightarrow> Q x)"
    and b: "\<And>s r s'. body s = (r, s') \<Longrightarrow> P s \<Longrightarrow> P s' \<and> (\<forall>x. r = Inl x \<longrightarrow> Q x)"
    and fuel: "Q OutOfFuel"
  shows "while_loop ops n cond body condition s = (r, s') \<Longrightarrow> P s \<Longrightarrow> P s' \<and> (\<forall>x. r = Inl x \<longrightarrow> Q x)"
proof (induction n arbitrary: condition s r s')
  case 0
  then show ?case using fuel by (auto split: if_splits)
next
  case (Suc n)
  show ?case
  proof (cases "d_eq ops condition (d_zero ops)")
    case True
    with Suc.prems show ?thesis by auto
  next
    case False
    obtain rb sb where body: "body s = (rb, sb)" by (cases "body s")
    from b [OF body Suc.prems(2)] have 1: "P sb" "\<forall>x. rb = Inl x \<longrightarrow> Q x" by blast+
    obtain rc sc where cond: "cond sb = (rc, sc)" by (cases "cond sb")
    from c [OF cond 1(1)] have 2: "P sc" "\<forall>x. rc = Inl x \<longrightarrow> Q x" by blast+
    have again: "P s' \<and> (\<forall>x. r = Inl x \<longrightarrow> Q x)"
      if "while_loop ops n cond body v sc = (r, s')" for v
      using Suc.IH [OF that 2(1)] .
    have next_round: "P s' \<and> (\<forall>x. r = Inl x \<longrightarrow> Q x)"
      if "(case rc of Inl x \<Rightarrow> (Inl x, sc) | Inr v \<Rightarrow> while_loop ops n cond body v sc) = (r, s')"
      using that 2 again by (cases rc) auto
    show ?thesis
    proof (cases rb)
      case (Inr v)
      with Suc.prems False body cond next_round show ?thesis
        by (auto split: sum.splits)
    next
      case (Inl x)
      with Suc.prems False body cond next_round 1 show ?thesis
        by (cases x) (auto split: sum.splits)
    qed
  qed
qed

lemma leave_call_raise:
  assumes "leave_call ops (rb, s2) = (r, s')" and "r = Inl x"
  shows "x = UndefinedBehaviour \<or> rb = Inl x"
  using assms
  by (cases rb; cases "exitFunction s2")
     (auto simp: leave_call_def split: exception.splits)

lemma raised_by_simps:
  "raised_by T ContinueFlowException" "raised_by T BreakFlowException"
  "raised_by T HaltFlowException" "raised_by T (ReturnFlowException v)"
  "raised_by T UndefinedBehaviour" "raised_by T OutOfFuel"
  by (simp_all add: raised_by_def)

lemma raised_by_throwError:
  "raised_by T (throwError s ''division by zero'')"
  "raised_by T (throwError s ''modulo zero'')"
  "raised_by T (throwError s (wrong_number g))"
  "T g = None \<Longrightarrow> is_NAME g \<Longrightarrow> raised_by T (throwError s (not_defined g))"
  unfolding raised_by_def throwError_errorMessage by blast+

lemma interpret_raised:
  assumes table: "\<forall>f fd. T f = Some fd \<longrightarrow> (\<forall>st\<in>set (m_commands fd). \<forall>g\<in>called_stmt st. is_NAME g)"
  shows "(\<forall>e s r s'. interpret_expr ops n e s = (r, s') \<longrightarrow> m_functionTable s = T \<longrightarrow>
            (\<forall>g\<in>called_expr e. is_NAME g) \<longrightarrow>
            m_functionTable s' = T \<and> (\<forall>x. r = Inl x \<longrightarrow> raised_by T x)) \<and>
         (\<forall>st s r s'. interpret_stmt ops n st s = (r, s') \<longrightarrow> m_functionTable s = T \<longrightarrow>
            (\<forall>g\<in>called_stmt st. is_NAME g) \<longrightarrow>
            m_functionTable s' = T \<and> (\<forall>x. r = Inl x \<longrightarrow> raised_by T x))"
proof (induction n)
  case 0
  then show ?case by (auto simp: raised_by_simps)
next
  case (Suc n)
  then have IHe: "\<And>e s r s'. interpret_expr ops n e s = (r, s') \<Longrightarrow> m_functionTable s = T \<Longrightarrow>
      \<forall>g\<in>called_expr e. is_NAME g \<Longrightarrow>
      m_functionTable s' = T \<and> (\<forall>x. r = Inl x \<longrightarrow> raised_by T x)"
    and IHs: "\<And>st s r s'. interpret_stmt ops n st s = (r, s') \<Longrightarrow> m_functionTable s = T \<Longrightarrow>
      \<forall>g\<in>called_stmt st. is_NAME g \<Longrightarrow>
      m_functionTable s' = T \<and> (\<forall>x. r = Inl x \<longrightarrow> raised_by T x)"
    by blast+
  have e: "m_functionTable s' = T \<and> (\<forall>x. r = Inl x \<longrightarrow> raised_by T x)"
    if run: "interpret_expr ops (Suc n) e s = (r, s')" and T: "m_functionTable s = T"
      and names: "\<forall>g\<in>called_expr e. is_NAME g"
    for e s r s'
  proof (cases e)
    case (ConstantExpression c)
    with run T show ?thesis by auto
  next
    case (VariableExpression name)
    with run T show ?thesis
      by (auto simp: getVariable_def raised_by_simps split: option.splits list.splits)
  next
    case (PrefixOpExpression name t)
    with run T show ?thesis
      by (auto simp: getVariable_def setVariable_def raised_by_simps split: option.splits list.splits)
  next
    case (PostfixOpExpression name t)
    with run T show ?thesis
      by (auto simp: getVariable_def setVariable_def raised_by_simps split: option.splits list.splits)
  next
    case (ArithmeticExpression l r' t)
    from names ArithmeticExpression have nl: "\<forall>g\<in>called_expr l. is_NAME g"
      and nr: "\<forall>g\<in>called_expr r'. is_NAME g" by simp_all
    obtain r1 s1 where l: "interpret_expr ops n l s = (r1, s1)" by (cases "interpret_expr ops n l s")
    note 1 = IHe [OF l T nl]
    obtain r2 s2 where r: "interpret_expr ops n r' s1 = (r2, s2)" by (cases "interpret_expr ops n r' s1")
    note 2 = IHe [OF r conjunct1 [OF 1] nr]
    from run ArithmeticExpression l r 1 2 show ?thesis
      by (cases r1; cases r2; cases t) (auto simp: arith_def raised_by_throwError split: if_splits)
  next
    case (BooleanExpression l r' t)
    from names BooleanExpression have nl: "\<forall>g\<in>called_expr l. is_NAME g"
      and nr: "\<forall>g\<in>called_expr r'. is_NAME g" by simp_all
    obtain r1 s1 where l: "interpret_expr ops n l s = (r1, s1)" by (cases "interpret_expr ops n l s")
    note 1 = IHe [OF l T nl]
    obtain r2 s2 where r: "interpret_expr ops n r' s1 = (r2, s2)" by (cases "interpret_expr ops n r' s1")
    note 2 = IHe [OF r conjunct1 [OF 1] nr]
    from run BooleanExpression l r 1 2 show ?thesis
      by (cases r1; cases r2) auto
  next
    case (NegationExpression e1)
    from names NegationExpression have n1: "\<forall>g\<in>called_expr e1. is_NAME g" by simp
    obtain r1 s1 where l: "interpret_expr ops n e1 s = (r1, s1)" by (cases "interpret_expr ops n e1 s")
    note 1 = IHe [OF l T n1]
    from run NegationExpression l 1 show ?thesis by (cases r1) auto
  next
    case (AssignExpression name e1)
    from names AssignExpression have n1: "\<forall>g\<in>called_expr e1. is_NAME g" by simp
    obtain r1 s1 where l: "interpret_expr ops n e1 s = (r1, s1)" by (cases "interpret_expr ops n e1 s")
    note 1 = IHe [OF l T n1]
    from run AssignExpression l 1 show ?thesis
      by (cases r1) (auto simp: setVariable_def split: option.splits list.splits)
  next
    case (MinusExpression e1)
    from names MinusExpression have n1: "\<forall>g\<in>called_expr e1. is_NAME g" by simp
    obtain r1 s1 where l: "interpret_expr ops n e1 s = (r1, s1)" by (cases "interpret_expr ops n e1 s")
    note 1 = IHe [OF l T n1]
    from run MinusExpression l 1 show ?thesis by (cases r1) auto
  next
    case (FunctionCallExpression name argList)
    from names FunctionCallExpression have nn: "is_NAME name"
      and na: "\<And>a. a \<in> set argList \<Longrightarrow> \<forall>g\<in>called_expr a. is_NAME g" by auto
    show ?thesis
    proof (cases "getFunctionDefinition s name")
      case None
      then have "T name = None" using T by (simp add: getFunctionDefinition_def)
      from raised_by_throwError(4) [of T name s, OF this nn] run T FunctionCallExpression None
      show ?thesis by (auto simp: not_defined_def)
    next
      case (Some fd)
      show ?thesis
      proof (cases "length (m_args fd) = length argList")
        case False
        with raised_by_throwError(3) [of T s name] run T FunctionCallExpression Some
        show ?thesis by (auto simp: wrong_number_def)
      next
        case True
        obtain ra s1 where a: "interpret_arguments (interpret_expr ops n) argList s = (ra, s1)"
          by (cases "interpret_arguments (interpret_expr ops n) argList s")
        have 1: "m_functionTable s1 = T \<and> (\<forall>x. ra = Inl x \<longrightarrow> raised_by T x)"
          using a T
          by (rule interpret_arguments_raise [where P = "\<lambda>s. m_functionTable s = T", rotated])
            (use IHe na in blast)
        show ?thesis
        proof (cases ra)
          case (Inl x)
          with run FunctionCallExpression Some True a 1 show ?thesis by auto
        next
          case (Inr vs)
          let ?s = "enterFunction ops s1 fd vs"
          obtain rb s2 where b: "interpret_statements ops (interpret_stmt ops n) (m_commands fd) ?s = (rb, s2)"
            by (cases "interpret_statements ops (interpret_stmt ops n) (m_commands fd) ?s")
          have Ts: "m_functionTable ?s = T"
            using 1 by (simp add: enterFunction_fields)
          have "T name = Some fd" using Some T by (simp add: getFunctionDefinition_def)
          with table have nb: "\<And>st. st \<in> set (m_commands fd) \<Longrightarrow> \<forall>g\<in>called_stmt st. is_NAME g"
            by blast
          have 2: "m_functionTable s2 = T \<and> (\<forall>x. rb = Inl x \<longrightarrow> raised_by T x)"
            using b Ts
            by (rule interpret_statements_raise [where P = "\<lambda>s. m_functionTable s = T", rotated])
              (use IHs nb in blast)
          from run FunctionCallExpression Some True a Inr b
          have lc: "leave_call ops (rb, s2) = (r, s')" by simp
          from leave_call_table [OF lc] 2 have "m_functionTable s' = T" by simp
          moreover have "raised_by T x" if "r = Inl x" for x
            using leave_call_raise [OF lc that] 2 by (auto simp: raised_by_simps)
          ultimately show ?thesis by blast
        qed
      qed
    qed
  qed
  have s: "m_functionTable s' = T \<and> (\<forall>x. r = Inl x \<longrightarrow> raised_by T x)"
    if run: "interpret_stmt ops (Suc n) st s = (r, s')" and T: "m_functionTable s = T"
      and names: "\<forall>g\<in>called_stmt st. is_NAME g"
    for st s r s'
  proof (cases st)
    case (ExpressionStatement e1)
    from names ExpressionStatement have n1: "\<forall>g\<in>called_expr e1. is_NAME g" by simp
    obtain r1 s1 where l: "interpret_expr ops n e1 s = (r1, s1)" by (cases "interpret_expr ops n e1 s")
    note 1 = IHe [OF l T n1]
    from run ExpressionStatement l 1 show ?thesis by (cases r1) (auto split: if_splits)
  next
    case (IfStatement c t f)
    from names IfStatement have nc: "\<forall>g\<in>called_expr c. is_NAME g"
      and nt: "\<forall>g\<in>called_stmt t. is_NAME g" by (cases f; simp)+
    obtain r1 s1 where l: "interpret_expr ops n c s = (r1, s1)" by (cases "interpret_expr ops n c s")
    note 1 = IHe [OF l T nc]
    obtain rt st' where t: "interpret_stmt ops n t s1 = (rt, st')" by (cases "interpret_stmt ops n t s1")
    note 2 = IHs [OF t conjunct1 [OF 1] nt]
    show ?thesis
    proof (cases f)
      case None
      with run IfStatement l t 1 2 show ?thesis
        by (cases r1; cases rt) (auto split: if_splits)
    next
      case (Some fs)
      with names IfStatement have nf: "\<forall>g\<in>called_stmt fs. is_NAME g" by simp
      obtain rf sf where f: "interpret_stmt ops n fs s1 = (rf, sf)" by (cases "interpret_stmt ops n fs s1")
      note 3 = IHs [OF f conjunct1 [OF 1] nf]
      from run IfStatement Some l t f 1 2 3 show ?thesis
        by (cases r1; cases rt; cases rf) (auto split: if_splits)
    qed
  next
    case (WhileStatement c b)
    from names WhileStatement have nc: "\<forall>g\<in>called_expr c. is_NAME g"
      and nb: "\<forall>g\<in>called_stmt b. is_NAME g" by simp_all
    obtain r1 s1 where l: "interpret_expr ops n c s = (r1, s1)" by (cases "interpret_expr ops n c s")
    note 1 = IHe [OF l T nc]
    show ?thesis
    proof (cases r1)
      case (Inl x)
      with run WhileStatement l 1 show ?thesis by auto
    next
      case (Inr v)
      with run WhileStatement l
      have w: "while_loop ops n (interpret_expr ops n c) (interpret_stmt ops n b) v s1 = (r, s')"
        by simp
      show ?thesis
        using w conjunct1 [OF 1]
        by (rule while_loop_raise [where P = "\<lambda>s. m_functionTable s = T", rotated 3])
          (use IHe IHs nc nb raised_by_simps in blast)+
    qed
  next
    case BreakStatement
    with run T show ?thesis by (auto simp: raised_by_simps)
  next
    case ContinueStatement
    with run T show ?thesis by (auto simp: raised_by_simps)
  next
    case HaltStatement
    with run T show ?thesis by (auto simp: raised_by_simps)
  next
    case (ReturnStatement eo)
    show ?thesis
    proof (cases eo)
      case None
      with run T ReturnStatement show ?thesis by (auto simp: raised_by_simps)
    next
      case (Some e1)
      with names ReturnStatement have n1: "\<forall>g\<in>called_expr e1. is_NAME g" by simp
      obtain r1 s1 where l: "interpret_expr ops n e1 s = (r1, s1)" by (cases "interpret_expr ops n e1 s")
      note 1 = IHe [OF l T n1]
      from run ReturnStatement Some l 1 show ?thesis by (cases r1) (auto simp: raised_by_simps)
    qed
  next
    case (StatementList sts)
    with names have ns: "\<And>st. st \<in> set sts \<Longrightarrow> \<forall>g\<in>called_stmt st. is_NAME g" by auto
    from StatementList run have "interpret_statements ops (interpret_stmt ops n) sts s = (r, s')" by simp
    then show ?thesis
      using T
      by (rule interpret_statements_raise [where P = "\<lambda>s. m_functionTable s = T", rotated])
        (use IHs ns in blast)
  qed
  from e s show ?case by blast
qed

lemma interpret_arguments_snoc:
  "interpret_arguments interp (es @ [e]) s =
     (case interpret_arguments interp es s of
        (Inl x, s1) \<Rightarrow> (Inl x, s1)
      | (Inr vs, s1) \<Rightarrow>
          (case interp e s1 of
             (Inl x, s2) \<Rightarrow> (Inl x, s2)
           | (Inr v, s2) \<Rightarrow> (Inr (vs @ [v]), s2)))"
  by (induction es arbitrary: s) (auto split: prod.splits sum.splits)

lemma call_right_arity:
  assumes fd: "getFunctionDefinition s name = Some fd"
    and len: "length (m_args fd) = length argList"
    and args: "interpret_arguments (interpret_expr ops n) argList s = (Inr vals, s1)"
    and body: "interpret_statements ops (interpret_stmt ops n) (m_commands fd)
           (enterFunction ops s1 fd vals) = (r, s2)"
  shows "m_callStack s1 = m_callStack s \<and>
     (\<exists>s3. exitFunction s2 = Some s3 \<and>
        interpret_expr ops (Suc n) (FunctionCallExpression name argList) s =
          (case r of Inl (ReturnFlowException v) \<Rightarrow> Inr v | Inl x \<Rightarrow> Inl x | Inr v \<Rightarrow> Inr (d_zero ops), s3))"
proof -
  have IHe: "\<And>e s r s'. interpret_expr ops n e s = (r, s') \<Longrightarrow> extends s s'"
    and IHs: "\<And>st s r s'. interpret_stmt ops n st s = (r, s') \<Longrightarrow> extends s s'"
    using interpret_extends [of ops n] by blast+
  have 1: "extends s s1"
    using IHe args by (rule interpret_arguments_extends)
  have 2: "extends (enterFunction ops s1 fd vals) s2"
    using IHs body by (rule interpret_statements_extends)
  have "length (m_args fd) = length vals"
    using interpret_arguments_length [OF args] len by simp
  from exit_after_body [OF this 2] obtain s3 where s3: "exitFunction s2 = Some s3" by blast
  have "interpret_expr ops (Suc n) (FunctionCallExpression name argList) s =
      (case r of Inl (ReturnFlowException v) \<Rightarrow> Inr v | Inl x \<Rightarrow> Inl x | Inr v \<Rightarrow> Inr (d_zero ops), s3)"
    using fd len args body by (simp add: leave_call_result [OF s3])
  with s3 1 show ?thesis by (simp add: extends_def)
qed

lemma call_never_not_defined:
  assumes fd: "getFunctionDefinition s name = Some fd"
    and names: "\<forall>g\<in>called_expr (FunctionCallExpression name argList) \<union> table_names (m_functionTable s). is_NAME g"
  shows "fst (interpret_expr ops n (FunctionCallExpression name argList) s)
      \<noteq> Inl (RuntimeException (errorMessage cur (not_defined name)))"
proof
  assume bad: "fst (interpret_expr ops n (FunctionCallExpression name argList) s)
      = Inl (RuntimeException (errorMessage cur (not_defined name)))"
  let ?T = "m_functionTable s"
  have table: "\<forall>f fd. ?T f = Some fd \<longrightarrow> (\<forall>st\<in>set (m_commands fd). \<forall>g\<in>called_stmt st. is_NAME g)"
    using names unfolding table_names_def by blast
  have nm: "\<forall>g\<in>called_expr (FunctionCallExpression name argList). is_NAME g"
    using names by blast
  obtain r s' where run: "interpret_expr ops n (FunctionCallExpression name argList) s = (r, s')"
    by (cases "interpret_expr ops n (FunctionCallExpression name argList) s")
  with interpret_raised [OF table, of ops n] nm
  have "\<forall>x. r = Inl x \<longrightarrow> raised_by ?T x" by blast
  with bad run have "raised_by ?T (RuntimeException (errorMessage cur (not_defined name)))" by simp
  moreover have "is_NAME name" using nm by simp
  ultimately have "?T name = None" by (rule raised_by_not_defined)
  with fd show False by (simp add: getFunctionDefinition_def)
qed

text \<open>
  C5, as stated, fails in the "only if" of the second error: with \<^verbatim>\<open>define f(x) { }\<close>
  the call \<^verbatim>\<open>f(f())\<close> has one argument for one parameter, and evaluating it raises
  "wrong number of arguments for function 'f'", which the argument \<^verbatim>\<open>f()\<close> has
  raised.
\<close>

theorem call_arity_error_from_argument:
  "getFunctionDefinition f_defined ''f'' = Some f_of_x
   \<and> length (m_args f_of_x) = length [FunctionCallExpression ''f'' [] :: real AbsExpression]
   \<and> fst (interpret_expr real_ops 2
        (FunctionCallExpression ''f'' [FunctionCallExpression ''f'' []]) f_defined)
     = Inl (RuntimeException (''runtime error in function (main): wrong number of arguments for function ''
          @ [CHR 0x27] @ ''f'' @ [CHR 0x27] @ ''.''))"
proof -
  have "getFunctionDefinition f_defined ''f'' = Some f_of_x"
    by (simp add: getFunctionDefinition_def f_defined_def addFunctionDefinition_def f_of_x_def)
  moreover have "length (m_args f_of_x) = length [FunctionCallExpression ''f'' [] :: real AbsExpression]"
    by (simp add: f_of_x_def)
  moreover have "fst (interpret_expr real_ops 2
        (FunctionCallExpression ''f'' [FunctionCallExpression ''f'' []]) f_defined)
     = Inl (RuntimeException (''runtime error in function (main): wrong number of arguments for function ''
          @ [CHR 0x27] @ ''f'' @ [CHR 0x27] @ ''.''))"
    by code_simp
  ultimately show ?thesis by blast
qed

text \<open>
  C5, amended. A call of an absent function raises "function 'f' not defined", and with
  the names the lexer makes a call of a function that exists never ends in that error.
  A call of a function with another number of parameters raises "wrong number of
  arguments for function 'f'". Both errors leave the context as it is, whatever the
  arguments are: no argument is evaluated. A call with the right number of arguments
  raises nothing itself: it evaluates the arguments in the caller's context, from the
  first (none gives no value and the same context) to the last (each in the state the
  ones before it have left), and only then enters the frame and runs the body; an
  exception it ends with was raised by an argument or by the body, and can be the
  arity error of a nested call of \<open>f\<close>.
\<close>

theorem call_lookup_arity_arguments:
  "(getFunctionDefinition s name = None \<longrightarrow>
      interpret_expr ops (Suc n) (FunctionCallExpression name argList) s =
        (Inl (RuntimeException (errorMessage (currFunc s) (not_defined name))), s))
   \<and> (\<forall>fd cur. getFunctionDefinition s name = Some fd \<and>
        (\<forall>g\<in>called_expr (FunctionCallExpression name argList) \<union> table_names (m_functionTable s). is_NAME g) \<longrightarrow>
      fst (interpret_expr ops (Suc n) (FunctionCallExpression name argList) s)
        \<noteq> Inl (RuntimeException (errorMessage cur (not_defined name))))
   \<and> (\<forall>fd. getFunctionDefinition s name = Some fd \<and> length (m_args fd) \<noteq> length argList \<longrightarrow>
      interpret_expr ops (Suc n) (FunctionCallExpression name argList) s =
        (Inl (RuntimeException (errorMessage (currFunc s) (wrong_number name))), s))
   \<and> (\<forall>fd x s1. getFunctionDefinition s name = Some fd \<and> length (m_args fd) = length argList \<and>
        interpret_arguments (interpret_expr ops n) argList s = (Inl x, s1) \<longrightarrow>
      interpret_expr ops (Suc n) (FunctionCallExpression name argList) s = (Inl x, s1))
   \<and> (\<forall>fd vals s1 r s2. getFunctionDefinition s name = Some fd \<and> length (m_args fd) = length argList \<and>
        interpret_arguments (interpret_expr ops n) argList s = (Inr vals, s1) \<and>
        interpret_statements ops (interpret_stmt ops n) (m_commands fd)
          (enterFunction ops s1 fd vals) = (r, s2) \<longrightarrow>
      m_callStack s1 = m_callStack s \<and>
      (\<exists>s3. exitFunction s2 = Some s3 \<and>
         interpret_expr ops (Suc n) (FunctionCallExpression name argList) s =
           (case r of Inl (ReturnFlowException v) \<Rightarrow> Inr v | Inl x \<Rightarrow> Inl x
            | Inr v \<Rightarrow> Inr (d_zero ops), s3)))
   \<and> (\<forall>fd x s'. getFunctionDefinition s name = Some fd \<and> length (m_args fd) = length argList \<and>
        interpret_expr ops (Suc n) (FunctionCallExpression name argList) s = (Inl x, s') \<longrightarrow>
      interpret_arguments (interpret_expr ops n) argList s = (Inl x, s') \<or>
      (\<exists>vals s1 s2. interpret_arguments (interpret_expr ops n) argList s = (Inr vals, s1) \<and>
         interpret_statements ops (interpret_stmt ops n) (m_commands fd)
           (enterFunction ops s1 fd vals) = (Inl x, s2) \<and> exitFunction s2 = Some s'))
   \<and> (\<forall>interp s0. interpret_arguments interp [] s0 = (Inr [], s0))
   \<and> (\<forall>interp es e s0. interpret_arguments interp (es @ [e]) s0 =
        (case interpret_arguments interp es s0 of
           (Inl x, s1) \<Rightarrow> (Inl x, s1)
         | (Inr vs, s1) \<Rightarrow>
             (case interp e s1 of
                (Inl x, s2) \<Rightarrow> (Inl x, s2)
              | (Inr v, s2) \<Rightarrow> (Inr (vs @ [v]), s2))))
   \<and> not_defined name \<noteq> wrong_number name"
proof -
  have 1: "interpret_expr ops (Suc n) (FunctionCallExpression name argList) s =
        (Inl (RuntimeException (errorMessage (currFunc s) (not_defined name))), s)"
    if "getFunctionDefinition s name = None"
    using that by (simp add: throwError_errorMessage not_defined_def)
  have 2: "fst (interpret_expr ops (Suc n) (FunctionCallExpression name argList) s)
        \<noteq> Inl (RuntimeException (errorMessage cur (not_defined name)))"
    if "getFunctionDefinition s name = Some fd"
      "\<forall>g\<in>called_expr (FunctionCallExpression name argList) \<union> table_names (m_functionTable s). is_NAME g"
    for fd cur
    using that by (rule call_never_not_defined)
  have 3: "interpret_expr ops (Suc n) (FunctionCallExpression name argList) s =
        (Inl (RuntimeException (errorMessage (currFunc s) (wrong_number name))), s)"
    if "getFunctionDefinition s name = Some fd" "length (m_args fd) \<noteq> length argList" for fd
    using that by (simp add: throwError_errorMessage wrong_number_def)
  have 4: "interpret_expr ops (Suc n) (FunctionCallExpression name argList) s = (Inl x, s1)"
    if "getFunctionDefinition s name = Some fd" "length (m_args fd) = length argList"
      "interpret_arguments (interpret_expr ops n) argList s = (Inl x, s1)" for fd x s1
    using that by simp
  note 5 = call_right_arity [of s name _ argList ops n]
  have 6: "interpret_arguments (interpret_expr ops n) argList s = (Inl x, s') \<or>
      (\<exists>vals s1 s2. interpret_arguments (interpret_expr ops n) argList s = (Inr vals, s1) \<and>
         interpret_statements ops (interpret_stmt ops n) (m_commands fd)
           (enterFunction ops s1 fd vals) = (Inl x, s2) \<and> exitFunction s2 = Some s')"
    if fd: "getFunctionDefinition s name = Some fd" and len: "length (m_args fd) = length argList"
      and run: "interpret_expr ops (Suc n) (FunctionCallExpression name argList) s = (Inl x, s')"
    for fd x s'
  proof -
    obtain ra s1 where a: "interpret_arguments (interpret_expr ops n) argList s = (ra, s1)"
      by (cases "interpret_arguments (interpret_expr ops n) argList s")
    show ?thesis
    proof (cases ra)
      case (Inl y)
      with 4 [OF fd len] a run show ?thesis by simp
    next
      case (Inr vals)
      obtain r s2 where b: "interpret_statements ops (interpret_stmt ops n) (m_commands fd)
          (enterFunction ops s1 fd vals) = (r, s2)"
        by (cases "interpret_statements ops (interpret_stmt ops n) (m_commands fd)
          (enterFunction ops s1 fd vals)")
      from 5 [OF fd len a [unfolded Inr] b] run obtain s3 where
        s3: "exitFunction s2 = Some s3"
          "(case r of Inl (ReturnFlowException v) \<Rightarrow> Inr v | Inl x \<Rightarrow> Inl x | Inr v \<Rightarrow> Inr (d_zero ops), s3)
            = (Inl x, s')"
        by auto
      from s3(2) have "r = Inl x" "s3 = s'"
        by (auto split: sum.splits exception.splits)
      with a Inr b s3(1) show ?thesis by blast
    qed
  qed
  have 7: "not_defined name \<noteq> wrong_number name"
    by (simp add: not_defined_def wrong_number_def)
  from 1 2 3 4 5 6 7 interpret_arguments_snoc show ?thesis
    by (intro conjI allI impI; (elim conjE)?; simp; blast?)
qed

theorem call_lookup_arity_arguments_witness:
  "interpret_expr real_ops (Suc 1)
     (FunctionCallExpression ''h'' [ArithmeticExpression (ConstantExpression 1) (ConstantExpression 0) OP_DIV]) g_defined
     = (Inl (RuntimeException (''runtime error in function (main): function '' @ [CHR 0x27] @ ''h'' @ [CHR 0x27] @ '' not defined.'')), g_defined)
   \<and> interpret_expr real_ops (Suc 1)
     (FunctionCallExpression ''g'' [ArithmeticExpression (ConstantExpression 1) (ConstantExpression 0) OP_DIV]) g_defined
     = (Inl (RuntimeException (''runtime error in function (main): wrong number of arguments for function '' @ [CHR 0x27] @ ''g'' @ [CHR 0x27] @ ''.'')), g_defined)
   \<and> fst (interpret_expr real_ops (Suc 1)
        (FunctionCallExpression ''f'' [FunctionCallExpression ''f'' []]) f_defined)
     \<noteq> Inl (RuntimeException (errorMessage ''(main)'' (not_defined ''f'')))
   \<and> fst (interpret_arguments (interpret_expr real_ops 5) p_arguments p_defined) = Inr [1, 2]
   \<and> fst (interpret_expr real_ops (Suc 5) (FunctionCallExpression ''p'' p_arguments) p_defined) = Inr 12
   \<and> m_variables (snd (interpret_expr real_ops (Suc 5) (FunctionCallExpression ''p'' p_arguments) p_defined)) ''x''
     = Some [1]"
proof -
  let ?div = "[ArithmeticExpression (ConstantExpression 1) (ConstantExpression 0) OP_DIV :: real AbsExpression]"
  have h: "getFunctionDefinition g_defined ''h'' = None"
    by (simp add: getFunctionDefinition_def g_defined_def addFunctionDefinition_def initial_def g_sets_x_def)
  have g: "getFunctionDefinition g_defined ''g'' = Some g_sets_x \<and> length (m_args g_sets_x) \<noteq> length ?div"
    by (simp add: getFunctionDefinition_def g_defined_def addFunctionDefinition_def g_sets_x_def)
  have cf: "currFunc g_defined = ''(main)''"
    by (simp add: currFunc_def g_defined_def addFunctionDefinition_def initial_def)
  have 1: "interpret_expr real_ops (Suc 1) (FunctionCallExpression ''h'' ?div) g_defined
     = (Inl (RuntimeException (''runtime error in function (main): function '' @ [CHR 0x27] @ ''h'' @ [CHR 0x27] @ '' not defined.'')), g_defined)"
    using conjunct1 [OF call_lookup_arity_arguments [of g_defined "''h''" real_ops 1 ?div]] h
    by (simp add: cf errorMessage_def not_defined_def)
  have 2: "interpret_expr real_ops (Suc 1) (FunctionCallExpression ''g'' ?div) g_defined
     = (Inl (RuntimeException (''runtime error in function (main): wrong number of arguments for function '' @ [CHR 0x27] @ ''g'' @ [CHR 0x27] @ ''.'')), g_defined)"
    using conjunct1 [OF conjunct2 [OF conjunct2
        [OF call_lookup_arity_arguments [of g_defined "''g''" real_ops 1 ?div]]]] g
    by (simp add: cf errorMessage_def wrong_number_def)
  have f: "getFunctionDefinition f_defined ''f'' = Some f_of_x"
    by (simp add: getFunctionDefinition_def f_defined_def addFunctionDefinition_def f_of_x_def)
  have nf: "is_NAME ''f''" by code_simp
  have names: "\<forall>g\<in>called_expr (FunctionCallExpression ''f'' [FunctionCallExpression ''f'' [] :: real AbsExpression])
      \<union> table_names (m_functionTable f_defined). is_NAME g"
    using nf
    by (auto simp: table_names_def f_defined_def addFunctionDefinition_def initial_def f_of_x_def
        split: if_splits)
  have 3: "fst (interpret_expr real_ops (Suc 1)
        (FunctionCallExpression ''f'' [FunctionCallExpression ''f'' []]) f_defined)
     \<noteq> Inl (RuntimeException (errorMessage ''(main)'' (not_defined ''f'')))"
    using conjunct1 [OF conjunct2 [OF call_lookup_arity_arguments [of f_defined "''f''" real_ops 1
        "[FunctionCallExpression ''f'' []]"]]] f names
    by blast
  let ?args = "interpret_arguments (interpret_expr real_ops 5) p_arguments p_defined"
  let ?body = "interpret_statements real_ops (interpret_stmt real_ops 5) (m_commands p_adds)
      (enterFunction real_ops (snd ?args) p_adds [1, 2])"
  have p: "getFunctionDefinition p_defined ''p'' = Some p_adds \<and> length (m_args p_adds) = length p_arguments"
    by (simp add: getFunctionDefinition_def p_defined_def addFunctionDefinition_def p_adds_def
        p_arguments_def)
  have 4: "fst ?args = Inr [1, 2]" by code_simp
  then have a: "?args = (Inr [1, 2], snd ?args)" by (metis prod.collapse)
  have "fst ?body = Inl (ReturnFlowException 12)" by code_simp
  then have b: "?body = (Inl (ReturnFlowException 12), snd ?body)" by (metis prod.collapse)
  from conjunct1 [OF conjunct2 [OF conjunct2 [OF conjunct2 [OF conjunct2
      [OF call_lookup_arity_arguments [of p_defined "''p''" real_ops 5 p_arguments]]]]]] p a b
  obtain s3 where s3: "exitFunction (snd ?body) = Some s3"
    "interpret_expr real_ops (Suc 5) (FunctionCallExpression ''p'' p_arguments) p_defined = (Inr 12, s3)"
    by fastforce
  have "m_variables (the (exitFunction (snd ?body))) ''x'' = Some [1]" by code_simp
  with s3 have 5: "fst (interpret_expr real_ops (Suc 5) (FunctionCallExpression ''p'' p_arguments) p_defined) = Inr 12
     \<and> m_variables (snd (interpret_expr real_ops (Suc 5) (FunctionCallExpression ''p'' p_arguments) p_defined)) ''x''
       = Some [1]"
    by simp
  from 1 2 3 4 5 show ?thesis by blast
qed

section \<open>Runtime errors at the top level\<close>

lemma interpret_statements_append:
  assumes "interpret_statements ops interp sts1 s = (Inr v, s1)"
  shows "interpret_statements ops interp (sts1 @ sts2) s = interpret_statements ops interp sts2 s1"
  using assms
  by (induction sts1 arbitrary: s) (auto split: prod.splits sum.splits)

text \<open>
  C10. When the statements of a top-level line run normally up to one that raises a
  runtime error, the command ends in the context that statement has left, which comes
  from the context after the statements before it: no write and no printed value is
  undone (the output up to the error is still there), the message is added to the error
  stream, the statements after the failing one are not run, and the interpreter goes
  on with the next command.
\<close>

theorem runtime_error_keeps_effects:
  assumes "\<not> detectedError (statements_checks (sts1 @ st # sts2) reset)"
    and "interpret_statements ops (interpret_stmt ops n) sts1 s = (Inr v, s1)"
    and "interpret_stmt ops n st s1 = (Inl (RuntimeException msg), s2)"
  shows "command ops (Suc n) (StatementLineCommand (sts1 @ st # sts2)) s =
           (Parsing, s2\<lparr>cerr := cerr s2 @ [msg]\<rparr>)
     \<and> prog ops (Suc n) (StatementLineCommand (sts1 @ st # sts2) # cmds) s =
           prog ops (Suc n) cmds (s2\<lparr>cerr := cerr s2 @ [msg]\<rparr>)
     \<and> prefix (cout s) (cout s1) \<and> prefix (cout s1) (cout s2)
     \<and> m_functionTable s2 = m_functionTable s \<and> m_callStack s2 = m_callStack s"
proof -
  have "interpret_statements ops (interpret_stmt ops n) (sts1 @ st # sts2) s =
      (Inl (RuntimeException msg), s2)"
    using assms(3) by (simp add: interpret_statements_append [OF assms(2)])
  then have c: "command ops (Suc n) (StatementLineCommand (sts1 @ st # sts2)) s =
           (Parsing, s2\<lparr>cerr := cerr s2 @ [msg]\<rparr>)"
    using assms(1) by (simp add: command_def)
  have IHs: "\<And>st s r s'. interpret_stmt ops n st s = (r, s') \<Longrightarrow> extends s s'"
    using interpret_extends [of ops n] by blast
  have 1: "extends s s1"
    using IHs assms(2) by (rule interpret_statements_extends)
  have 2: "extends s1 s2"
    using assms(3) by (rule IHs)
  from c 1 2 show ?thesis
    by (simp add: extends_def)
qed

theorem runtime_error_keeps_effects_witness:
  "command real_ops (Suc 4) (StatementLineCommand (before_error @ failing # after_error)) initial =
     (Parsing,
      (snd (interpret_stmt real_ops 4 failing
         (snd (interpret_statements real_ops (interpret_stmt real_ops 4) before_error initial))))
      \<lparr>cerr := cerr (snd (interpret_stmt real_ops 4 failing
         (snd (interpret_statements real_ops (interpret_stmt real_ops 4) before_error initial))))
         @ [''runtime error in function (main): division by zero.'']\<rparr>)
   \<and> m_variables (snd (command real_ops (Suc 4)
        (StatementLineCommand (before_error @ failing # after_error)) initial)) ''x'' = Some [7]
   \<and> cout (snd (command real_ops (Suc 4)
        (StatementLineCommand (before_error @ failing # after_error)) initial)) = [7]
   \<and> cout (snd (prog real_ops (Suc 4)
        [StatementLineCommand (before_error @ failing # after_error),
         StatementLineCommand [ExpressionStatement (VariableExpression ''x'')]] initial)) = [7, 7]"
proof -
  let ?s1 = "snd (interpret_statements real_ops (interpret_stmt real_ops 4) before_error initial)"
  let ?s2 = "snd (interpret_stmt real_ops 4 failing ?s1)"
  have 1: "\<not> detectedError (statements_checks (before_error @ failing # after_error) reset)"
    by code_simp
  have "fst (interpret_statements real_ops (interpret_stmt real_ops 4) before_error initial) = Inr 0"
    by code_simp
  then have 2: "interpret_statements real_ops (interpret_stmt real_ops 4) before_error initial
      = (Inr 0, ?s1)"
    by (metis prod.collapse)
  have "fst (interpret_stmt real_ops 4 failing ?s1)
      = Inl (RuntimeException ''runtime error in function (main): division by zero.'')"
    by code_simp
  then have 3: "interpret_stmt real_ops 4 failing ?s1
      = (Inl (RuntimeException ''runtime error in function (main): division by zero.''), ?s2)"
    by (metis prod.collapse)
  have 4: "m_variables (snd (command real_ops (Suc 4)
        (StatementLineCommand (before_error @ failing # after_error)) initial)) ''x'' = Some [7]
   \<and> cout (snd (command real_ops (Suc 4)
        (StatementLineCommand (before_error @ failing # after_error)) initial)) = [7]
   \<and> cout (snd (prog real_ops (Suc 4)
        [StatementLineCommand (before_error @ failing # after_error),
         StatementLineCommand [ExpressionStatement (VariableExpression ''x'')]] initial)) = [7, 7]"
    by code_simp
  from runtime_error_keeps_effects [OF 1 2 3] 4 show ?thesis
    by blast
qed

section \<open>The tracker and unary minus\<close>

lemma pop_push: "pop (push ms a) = Some ms"
  by (simp add: pop_def push_def)

lemma pop_pushExprList: "pop (pushExprList ms l) = Some ms"
  by (simp add: pop_def pushExprList_def)

lemma useString_addString: "useString (push (addString ms x) a) x = push ms a"
  by (simp add: useString_def addString_def push_def)

lemma useString_addString_list: "useString (pushExprList (addString ms x) l) x = pushExprList ms l"
  by (simp add: useString_def addString_def pushExprList_def)

lemma useString_addString_empty: "useString (addString ms x) x = ms"
  by (simp add: useString_def addString_def)

lemma retarget_list:
  "(pushExprList ms l)\<lparr>m_absExprListPointers := l' # tl (m_absExprListPointers (pushExprList ms l))\<rparr>
     = pushExprList ms l'"
  by (simp add: pushExprList_def)

text \<open>
  Every reduction of an expression leaves exactly one new entry on the tracker, and
  nothing else changed: the entry is the fragment \<open>tracked\<close>. An argument list is one
  entry that grows with its elements.
\<close>

lemma reduce_tracked:
  fixes e :: "'d expression" and es :: "'d expression list"
  shows "reduce e ms = Some (push ms (AbsynExpression (tracked e)))"
    and "ms' = pushExprList ms0 l \<Longrightarrow>
      reduce_expressionlist es l ms' = Some (pushExprList ms0 (l @ map ast es))"
proof (induction e ms and es l ms' arbitrary: and ms0 rule: reduce_reduce_expressionlist.induct)
  case (13 f es ms)
  show ?case
  proof (cases es)
    case Nil
    then show ?thesis
      by (simp add: popAndPush_def pop_pushExprList useString_addString_list)
  next
    case (Cons e es')
    note e = "13.IH"(1) [OF Cons]
    have 2: "popAndPushExprList (push (addString ms f) (AbsynExpression (tracked e))) 1 [ast e]
        = Some (pushExprList (addString ms f) [ast e])"
      by (simp add: popAndPushExprList_def pop_push)
    note rest = "13.IH"(2) [OF Cons e 2 refl]
    show ?thesis
      by (simp add: Cons e 2 [simplified] rest popAndPush_def pop_pushExprList
          useString_addString_list)
  qed
next
  case (16 e es l ms')
  note e = "16.IH"(1)
  have p: "pop (push ms' (AbsynExpression (tracked e))) = Some ms'"
    by (rule pop_push)
  have "reduce_expressionlist es (l @ [ast e]) (pushExprList ms0 (l @ [ast e]))
      = Some (pushExprList ms0 ((l @ [ast e]) @ map ast es))"
    using "16.IH"(2) [OF e p, of ms0] "16.prems" by (simp add: retarget_list)
  then show ?case
    unfolding "16.prems"
    by (simp add: e [unfolded "16.prems"] p [unfolded "16.prems"] retarget_list)
qed (simp_all add: popAndPush_def pop_push useString_addString useString_addString_empty
    numeral_2_eq_2)

lemma tracked_size: "size (tracked e) \<le> size (ast e)"
  by (induction e rule: tracked.induct) simp_all

lemma tracked_ast: "(tracked e = ast e) = (\<not> unary_minus e)"
proof -
  have "unary_minus e \<Longrightarrow> size (tracked e) < size (ast e)"
  proof (induction e rule: unary_minus.induct)
    case (1 e)
    then show ?case using tracked_size [of e] by simp
  qed simp_all
  moreover have "\<not> unary_minus e \<Longrightarrow> tracked e = ast e"
    by (induction e rule: unary_minus.induct) simp_all
  ultimately show ?thesis by fastforce
qed

text \<open>
  C8. After the reduction of \<^verbatim>\<open>expression : MINUS expression\<close> the tracker still holds
  the operand, which the new MinusExpression has adopted, and does not hold the
  MinusExpression: the action has no tracker call. Every other expression production
  leaves the fragment it has built as the one new entry, so the tracked entry is the
  fragment produced exactly when the expression is not a unary minus. For \<^verbatim>\<open>-1\<close> the
  tracked entry is the constant; the action of \<^verbatim>\<open>NOT expression\<close>, in the same
  place, replaces the operand by the new node.
\<close>

theorem unary_minus_not_tracked:
  "reduce e ms = Some (push ms (AbsynExpression (tracked e)))
   \<and> (tracked e = ast e) = (\<not> unary_minus e)
   \<and> reduce (P_MINUS (P_NUMBER c)) emptyMemoryStack =
     Some (push emptyMemoryStack (AbsynExpression (ConstantExpression c)))
   \<and> ast (P_MINUS (P_NUMBER c)) = MinusExpression (ConstantExpression c)
   \<and> reduce (P_NOT (P_NUMBER c)) emptyMemoryStack =
     Some (push emptyMemoryStack (AbsynExpression (NegationExpression (ConstantExpression c))))"
  by (simp add: reduce_tracked(1) tracked_ast)

end
